theory Spec2Isabelle
  imports Main "HOL-Library.Word"
begin

section \<open>The HTTP executor of builder-util-runtime (httpExecutor.ts)\<close>

text \<open>
  A shallow embedding of \<^verbatim>\<open>packages/builder-util-runtime/src/httpExecutor.ts\<close>.
  Every function of the source that a property below talks about is a HOL function of the
  same name. What the source takes from the platform (the URL parsers, the hash
  implementation, \<^verbatim>\<open>JSON.parse\<close>, the transport) is a parameter of the model.
\<close>

subsection \<open>Strings\<close>

text \<open>
  A source string is a sequence of code units; the model uses \<^typ>\<open>string\<close>.
  \<^verbatim>\<open>startsWith\<close>, \<^verbatim>\<open>endsWith\<close> and \<^verbatim>\<open>includes\<close> compare
  code unit by code unit and are case-sensitive.
\<close>

definition startsWith :: "string \<Rightarrow> string \<Rightarrow> bool" where
  "startsWith s p = (take (length p) s = p)"

definition endsWith :: "string \<Rightarrow> string \<Rightarrow> bool" where
  "endsWith s p = (length p \<le> length s \<and> drop (length s - length p) s = p)"

fun includesStr :: "string \<Rightarrow> string \<Rightarrow> bool" where
  "includesStr [] p = (p = [])"
| "includesStr (c # cs) p = (startsWith (c # cs) p \<or> includesStr cs p)"

subsection \<open>Errors\<close>

datatype algorithm = Sha256 | Sha512

datatype encoding = Hex | Base64 | Latin1

datatype json =
    JNull
  | JBool bool
  | JNumber int
  | JString string
  | JArray "json list"
  | JObject "(string \<times> json) list"

text \<open>
  The description payload of an \<^verbatim>\<open>HttpError\<close>: absent, raw text, parsed JSON, or
  the text of the 404 branch, built from the request's method, protocol (defaulted),
  hostname and path.
\<close>

datatype description =
    NoDescription
  | RawText string
  | Parsed json
  | NotFoundHint "string option" string "string option" "string option"

text \<open>
  Every \<^verbatim>\<open>new Error(...)\<close>, \<^verbatim>\<open>newError(...)\<close> and runtime exception of the
  source, with the data its message is built from:
  \<^item> \<open>TooManyRedirects\<close>: \<^verbatim>\<open>"Too many redirects (> 10)"\<close>;
  \<^item> \<open>CannotDownload\<close>: \<^verbatim>\<open>"Cannot download ..., status ..."\<close> of \<^verbatim>\<open>doDownload\<close>
    (protocol, hostname, path, status code);
  \<^item> \<open>HttpError\<close>: the class of the same name, status code and description;
  \<^item> \<open>ChecksumHeaderRequired\<close>, \<open>ChecksumHeaderMismatch\<close>: the two errors of
    \<^verbatim>\<open>checkSha2\<close> (expected value, header value);
  \<^item> \<open>NotFinishedYet\<close>: \<^verbatim>\<open>ERR_STREAM_NOT_FINISHED\<close>;
  \<^item> \<open>ChecksumMismatch\<close>: \<^verbatim>\<open>ERR_CHECKSUM_MISMATCH\<close> (algorithm, expected, actual);
  \<^item> \<open>TypeError\<close>: thrown by the runtime (a string method on a value that is no
    string, \<^verbatim>\<open>new URL\<close> on an invalid URL);
  \<^item> \<open>SyntaxError\<close>: thrown by \<^verbatim>\<open>JSON.parse\<close>;
  \<^item> \<open>StageFailure\<close>: an \<^verbatim>\<open>error\<close> event a stream stage emits for a reason of
    its own (a failed write, a broken transport);
  \<^item> \<open>CloseFailure\<close>: the error the sink's \<^verbatim>\<open>close\<close> hands to its callback;
  \<^item> \<open>RequestFailure\<close>: the error of an \<^verbatim>\<open>error\<close> event of the request.
\<close>

datatype error =
    TooManyRedirects
  | CannotDownload string "string option" "string option" "int option"
  | HttpError int description
  | ChecksumHeaderRequired
  | ChecksumHeaderMismatch string string
  | NotFinishedYet
  | ChecksumMismatch algorithm string string
  | TypeError
  | SyntaxError
  | StageFailure string
  | CloseFailure string
  | RequestFailure string

subsection \<open>Request options and URLs\<close>

text \<open>
  A value of \<^verbatim>\<open>OutgoingHttpHeaders\<close> is a number, a string or a list of strings;
  a key bound to \<^verbatim>\<open>undefined\<close> and a missing key are both \<open>None\<close>.
\<close>

datatype header_value = HStr string | HNum int | HList "string list"

type_synonym headers = "string \<rightharpoonup> header_value"

datatype port = PortNumber int | PortString string

text \<open>
  \<^verbatim>\<open>RequestOptions\<close>. The fields the source reads or writes are named; every other
  field of the interface lives in the record's extension (\<open>more\<close>), so that a function
  on \<open>'a request_options_scheme\<close> says what it does to them too. The field
  \<^verbatim>\<open>method\<close> is \<open>httpMethod\<close> here.
\<close>

record request_options =
  protocol :: "string option"
  hostname :: "string option"
  port :: "port option"
  path :: "string option"
  httpMethod :: "string option"
  headers :: "headers option"

text \<open>The result of the legacy \<^verbatim>\<open>url.parse\<close>: every part may be null.\<close>

record url_parts =
  url_protocol :: "string option"
  url_hostname :: "string option"
  url_port :: "string option"
  url_path :: "string option"

text \<open>
  What the source takes from the platform:
  \<^item> \<open>parseUrl\<close>: \<^verbatim>\<open>parse\<close> of the module \<^verbatim>\<open>url\<close>;
  \<^item> \<open>newURL\<close>: the hostname of \<^verbatim>\<open>new URL(s)\<close>, or the error the constructor throws;
  \<^item> \<open>electron\<close>: whether \<^verbatim>\<open>process.versions.electron\<close> is set;
  \<^item> \<open>JSON_parse\<close>: \<^verbatim>\<open>JSON.parse\<close>, which throws on malformed text.
\<close>

record platform =
  parseUrl :: "string \<Rightarrow> url_parts"
  newURL :: "string \<Rightarrow> error + string"
  electron :: bool
  JSON_parse :: "string \<Rightarrow> error + json"

text \<open>
  \<^verbatim>\<open>configureRequestOptions(options, token?, method?)\<close>. The source mutates
  \<^verbatim>\<open>options\<close> and its headers object and returns \<^verbatim>\<open>options\<close>; the model returns
  the updated record.
\<close>

definition configureRequestOptions ::
  "platform \<Rightarrow> 'a request_options_scheme \<Rightarrow> string option \<Rightarrow> string option
    \<Rightarrow> 'a request_options_scheme" where
  "configureRequestOptions P options token meth =
    (let options1 = (case meth of None \<Rightarrow> options | Some m \<Rightarrow> options\<lparr>httpMethod := Some m\<rparr>);
         headers0 = (case headers options1 of None \<Rightarrow> Map.empty | Some h \<Rightarrow> h);
         headers1 = (case token of
                       None \<Rightarrow> headers0
                     | Some t \<Rightarrow> headers0(''authorization'' \<mapsto>
                         HStr (if startsWith t ''Basic'' then t else ''token '' @ t)));
         headers2 = (if headers1 ''User-Agent'' = None
                     then headers1(''User-Agent'' \<mapsto> HStr ''electron-builder'')
                     else headers1);
         headers3 = (if (meth = None \<or> meth = Some ''GET'') \<or> headers2 ''Cache-Control'' = None
                     then headers2(''Cache-Control'' \<mapsto> HStr ''no-cache'')
                     else headers2);
         options2 = options1\<lparr>headers := Some headers3\<rparr>
     in if protocol options2 = None \<and> electron P
        then options2\<lparr>protocol := Some ''https:''\<rparr>
        else options2)"

text \<open>\<^verbatim>\<open>configureRequestOptionsFromUrl(url, options)\<close>.\<close>

definition configureRequestOptionsFromUrl ::
  "platform \<Rightarrow> string \<Rightarrow> 'a request_options_scheme \<Rightarrow> 'a request_options_scheme" where
  "configureRequestOptionsFromUrl P url options =
    (let parsedUrl = parseUrl P url;
         options1 = options\<lparr>protocol := url_protocol parsedUrl,
                            hostname := url_hostname parsedUrl\<rparr>;
         options2 = (case url_port parsedUrl of
                       None \<Rightarrow> (if port options1 \<noteq> None then options1\<lparr>port := None\<rparr>
                                else options1)
                     | Some p \<Rightarrow> options1\<lparr>port := Some (PortString p)\<rparr>);
         options3 = options2\<lparr>path := url_path parsedUrl\<rparr>
     in configureRequestOptions P options3 None None)"

text \<open>
  \<^verbatim>\<open>(headers.authorization as string).startsWith("token")\<close>: the cast checks nothing,
  and a number or an array has no such method.
\<close>

definition authorizationStartsWith :: "header_value \<Rightarrow> string \<Rightarrow> error + bool" where
  "authorizationStartsWith v p =
    (case v of HStr s \<Rightarrow> Inr (startsWith s p) | HNum n \<Rightarrow> Inl TypeError | HList xs \<Rightarrow> Inl TypeError)"

text \<open>
  \<^verbatim>\<open>HttpExecutor.prepareRedirectUrlOptions(redirectUrl, options)\<close>. The source works on
  a shallow copy \<^verbatim>\<open>{...options}\<close>; the result is the copy. \<open>Inl\<close> is an exception
  that leaves the function. The header is read under the key \<^verbatim>\<open>authorization\<close>, in
  lower case, as \<^verbatim>\<open>configureRequestOptions\<close> writes it; the host that is tested is
  the one \<^verbatim>\<open>new URL\<close> finds.
\<close>

definition prepareRedirectUrlOptions ::
  "platform \<Rightarrow> string \<Rightarrow> 'a request_options_scheme \<Rightarrow> error + 'a request_options_scheme" where
  "prepareRedirectUrlOptions P redirectUrl options =
    (let newOptions = configureRequestOptionsFromUrl P redirectUrl options in
     case headers newOptions of
       None \<Rightarrow> Inr newOptions
     | Some hs \<Rightarrow>
        (case hs ''authorization'' of
           None \<Rightarrow> Inr newOptions
         | Some a \<Rightarrow>
            (case authorizationStartsWith a ''token'' of
               Inl e \<Rightarrow> Inl e
             | Inr False \<Rightarrow> Inr newOptions
             | Inr True \<Rightarrow>
                (case newURL P redirectUrl of
                   Inl e \<Rightarrow> Inl e
                 | Inr parsedNewUrlHostname \<Rightarrow>
                    (if endsWith parsedNewUrlHostname ''.amazonaws.com''
                     then Inr (newOptions\<lparr>headers := Some (hs(''authorization'' := None))\<rparr>)
                     else Inr newOptions)))))"

text \<open>The value of one header of request options, \<open>None\<close> when it is not there.\<close>

definition header :: "'a request_options_scheme \<Rightarrow> string \<Rightarrow> header_value option" where
  "header options name = (case headers options of None \<Rightarrow> None | Some hs \<Rightarrow> hs name)"

subsection \<open>Responses and redirect following\<close>

text \<open>
  A response header is a string or a list of strings. The transport delivers the header
  names in lower case; the record holds whatever names it is given. \<open>body\<close> is the
  text the response stream delivers up to its end (after inflation, when the request
  asked for it).
\<close>

datatype incoming_header = Single string | Multiple "string list"

record response =
  statusCode :: "int option"
  statusMessage :: "string option"
  responseHeaders :: "string \<rightharpoonup> incoming_header"
  body :: string

text \<open>\<^verbatim>\<open>safeGetHeader(response, headerKey)\<close>: of a list, the last element counts.\<close>

definition safeGetHeader :: "response \<Rightarrow> string \<Rightarrow> string option" where
  "safeGetHeader response headerKey =
    (case responseHeaders response headerKey of
       None \<Rightarrow> None
     | Some (Multiple xs) \<Rightarrow> (if length xs = 0 then None else Some (xs ! (length xs - 1)))
     | Some (Single s) \<Rightarrow> Some s)"

text \<open>\<^verbatim>\<open>a || d\<close> on an optional string: \<open>d\<close> when \<open>a\<close> is null or empty.\<close>

definition orElse :: "string option \<Rightarrow> string \<Rightarrow> string" where
  "orElse a d = (case a of None \<Rightarrow> d | Some s \<Rightarrow> if s = [] then d else s)"

text \<open>\<^verbatim>\<open>response.statusCode >= 400\<close>; the comparison is false on an undefined code.\<close>

definition statusAtLeast400 :: "response \<Rightarrow> bool" where
  "statusAtLeast400 response = (case statusCode response of None \<Rightarrow> False | Some c \<Rightarrow> c \<ge> 400)"

definition maxRedirects :: int where
  "maxRedirects = 10"

text \<open>
  \<^verbatim>\<open>redirectCount++\<close>: the value of the expression is the old value of the variable;
  the second component is the variable afterwards.
\<close>

definition postIncrement :: "int \<Rightarrow> int \<times> int" where
  "postIncrement n = (n, n + 1)"

text \<open>
  The transport (\<^verbatim>\<open>doRequest\<close>) is abstract in the source. Here it is a script: the
  list of the responses the successive requests of one operation receive, in order. On
  an exhausted script no response arrives, and nothing is called back.

  \<^verbatim>\<open>doDownload(requestOptions, destination, redirectCount, options, callback, onCancel)\<close>
  ends in one of four ways: \<^verbatim>\<open>callback\<close> is called with an error, an exception leaves
  the response handler, \<^verbatim>\<open>configurePipes\<close> is called on a response, or no response arrives.
\<close>

datatype download_outcome =
    CallbackError error
  | Thrown error
  | ConfigurePipes response
  | NoResponse

fun doDownload ::
  "platform \<Rightarrow> response list \<Rightarrow> 'a request_options_scheme \<Rightarrow> int \<Rightarrow> download_outcome" where
  "doDownload P [] requestOptions redirectCount = NoResponse"
| "doDownload P (response # later) requestOptions redirectCount =
    (if statusAtLeast400 response
     then CallbackError (CannotDownload (orElse (protocol requestOptions) ''https:'')
            (hostname requestOptions) (path requestOptions) (statusCode response))
     else
       (case safeGetHeader response ''location'' of
          Some redirectUrl \<Rightarrow>
            (if redirectCount < maxRedirects then
               (case prepareRedirectUrlOptions P redirectUrl requestOptions of
                  Inl e \<Rightarrow> Thrown e
                | Inr newOptions \<Rightarrow>
                    (case postIncrement redirectCount of
                       (passed, redirectCount') \<Rightarrow> doDownload P later newOptions passed))
             else CallbackError TooManyRedirects)
        | None \<Rightarrow> ConfigurePipes response))"

text \<open>
  \<^verbatim>\<open>createHttpError(response, description)\<close>: the status code, \<open>-1\<close> when it is
  undefined or zero.
\<close>

definition createHttpError :: "response \<Rightarrow> description \<Rightarrow> error" where
  "createHttpError response description =
    HttpError (case statusCode response of None \<Rightarrow> - 1 | Some c \<Rightarrow> if c = 0 then - 1 else c)
      description"

text \<open>
  \<^verbatim>\<open>doApiRequest\<close> and \<^verbatim>\<open>handleResponse\<close>: the promise resolves with the body
  (null when empty), is rejected with an error, or stays pending. An exception in
  \<^verbatim>\<open>handleResponse\<close> is caught by \<^verbatim>\<open>doApiRequest\<close> and rejects the promise.
\<close>

datatype api_outcome = Resolved "string option" | Rejected error | StaysPending

function doApiRequest ::
    "platform \<Rightarrow> response list \<Rightarrow> 'a request_options_scheme \<Rightarrow> int \<Rightarrow> api_outcome"
  and handleResponse ::
    "platform \<Rightarrow> response \<Rightarrow> response list \<Rightarrow> 'a request_options_scheme \<Rightarrow> int
      \<Rightarrow> api_outcome"
  where
  "doApiRequest P [] options redirectCount = StaysPending"
| "doApiRequest P (response # later) options redirectCount =
     handleResponse P response later options redirectCount"
| "handleResponse P response later options redirectCount =
    (if statusCode response = Some 404 then
       Rejected (createHttpError response
         (NotFoundHint (httpMethod options) (orElse (protocol options) ''https:'')
            (hostname options) (path options)))
     else if statusCode response = Some 204 then Resolved None
     else
       (case safeGetHeader response ''location'' of
          Some redirectUrl \<Rightarrow>
            (if redirectCount > 10 then Rejected TooManyRedirects
             else
               (case prepareRedirectUrlOptions P redirectUrl options of
                  Inl e \<Rightarrow> Rejected e
                | Inr newOptions \<Rightarrow> doApiRequest P later newOptions redirectCount))
        | None \<Rightarrow>
            (if statusAtLeast400 response then
               (let contentType = safeGetHeader response ''content-type'';
                    isJson = (case contentType of None \<Rightarrow> False
                              | Some ct \<Rightarrow> includesStr ct ''json'')
                in if isJson then
                     (case JSON_parse P (body response) of
                        Inl e \<Rightarrow> Rejected e
                      | Inr parsed \<Rightarrow> Rejected (createHttpError response (Parsed parsed)))
                   else Rejected (createHttpError response (RawText (body response))))
             else Resolved (if length (body response) = 0 then None
                            else Some (body response)))))"
  by pat_completeness auto
termination
  by (relation "measure (\<lambda>x. case x of
                   Inl (P, responses, options, n) \<Rightarrow> 2 * length responses
                 | Inr (P, response, later, options, n) \<Rightarrow> 2 * length later + 1)") auto

subsection \<open>The digest transform\<close>

type_synonym bytes = "8 word list"

text \<open>
  The hash implementation (\<^verbatim>\<open>createHash\<close> of the module \<^verbatim>\<open>crypto\<close>) is a
  parameter: \<open>'h\<close> is the state of a \<^verbatim>\<open>Hash\<close> object, \<open>hashUpdate\<close> is
  \<^verbatim>\<open>hash.update(chunk)\<close> and \<open>hashDigest\<close> is \<^verbatim>\<open>hash.digest(encoding)\<close>.
\<close>

record 'h crypto =
  createHash :: "algorithm \<Rightarrow> 'h"
  hashUpdate :: "'h \<Rightarrow> bytes \<Rightarrow> 'h"
  hashDigest :: "'h \<Rightarrow> encoding \<Rightarrow> string"

text \<open>The fields of the class \<^verbatim>\<open>DigestTransform\<close>; \<open>actual\<close> is \<^verbatim>\<open>_actual\<close>.\<close>

record 'h digest_transform =
  expected :: string
  algorithm :: algorithm
  encoding :: encoding
  digester :: 'h
  actual :: "string option"
  isValidateOnEnd :: bool

text \<open>The constructor.\<close>

definition newDigestTransform ::
  "'h crypto \<Rightarrow> string \<Rightarrow> algorithm \<Rightarrow> encoding \<Rightarrow> 'h digest_transform" where
  "newDigestTransform C e a enc =
    \<lparr>expected = e, algorithm = a, encoding = enc, digester = createHash C a,
     actual = None, isValidateOnEnd = True\<rparr>"

text \<open>
  \<^verbatim>\<open>_transform(chunk, encoding, callback)\<close>: the new state, and the chunk that
  \<^verbatim>\<open>callback(null, chunk)\<close> pushes to the output side.
\<close>

definition digestTransform ::
  "'h crypto \<Rightarrow> 'h digest_transform \<Rightarrow> bytes \<Rightarrow> 'h digest_transform \<times> bytes" where
  "digestTransform C d chunk = (d\<lparr>digester := hashUpdate C (digester d) chunk\<rparr>, chunk)"

text \<open>\<^verbatim>\<open>validate()\<close>: \<open>Inl\<close> is the error thrown, \<open>Inr ()\<close> the return of null.\<close>

definition validate :: "'h digest_transform \<Rightarrow> error + unit" where
  "validate d =
    (case actual d of
       None \<Rightarrow> Inl NotFinishedYet
     | Some a \<Rightarrow>
        (if a \<noteq> expected d then Inl (ChecksumMismatch (algorithm d) (expected d) a)
         else Inr ()))"

text \<open>
  \<^verbatim>\<open>_flush(callback)\<close>: the new state and the argument of \<^verbatim>\<open>callback\<close>
  (\<open>None\<close> for \<^verbatim>\<open>callback(null)\<close>).
\<close>

definition digestFlush ::
  "'h crypto \<Rightarrow> 'h digest_transform \<Rightarrow> 'h digest_transform \<times> error option" where
  "digestFlush C d =
    (let d1 = d\<lparr>actual := Some (hashDigest C (digester d) (encoding d))\<rparr> in
     if isValidateOnEnd d1 then
       (case validate d1 of Inl e \<Rightarrow> (d1, Some e) | Inr u \<Rightarrow> (d1, None))
     else (d1, None))"

text \<open>A transform fed a list of chunks, one after the other: its state and its output.\<close>

fun transformAll ::
  "'h crypto \<Rightarrow> 'h digest_transform \<Rightarrow> bytes list \<Rightarrow> 'h digest_transform \<times> bytes list" where
  "transformAll C d [] = (d, [])"
| "transformAll C d (chunk # chunks) =
    (case digestTransform C d chunk of
       (d1, out) \<Rightarrow> (case transformAll C d1 chunks of (d2, outs) \<Rightarrow> (d2, out # outs)))"

subsection \<open>The download pipeline\<close>

text \<open>
  \<^verbatim>\<open>checkSha2(sha2Header, sha2, callback)\<close>: \<open>Some e\<close> when it calls
  \<^verbatim>\<open>callback(e)\<close> and returns false, \<open>None\<close> when it returns true. The branches are
  those of the source, the inner test of the header for null included.
\<close>

definition checkSha2 :: "string option \<Rightarrow> string option \<Rightarrow> error option" where
  "checkSha2 sha2Header sha2 =
    (case sha2Header of
       None \<Rightarrow> None
     | Some header1 \<Rightarrow>
        (case sha2 of
           None \<Rightarrow> None
         | Some expected1 \<Rightarrow>
            (case sha2Header of
               None \<Rightarrow> Some ChecksumHeaderRequired
             | Some header2 \<Rightarrow>
                (if header2 \<noteq> expected1 then Some (ChecksumHeaderMismatch expected1 header2)
                 else None))))"

text \<open>
  \<^verbatim>\<open>DownloadOptions\<close>: \<open>onProgress\<close> says whether the callback is supplied; the
  remaining fields are in the record's extension.
\<close>

record download_options =
  sha2 :: "string option"
  sha512 :: "string option"
  onProgress :: bool

text \<open>
  The third argument of \<^verbatim>\<open>new DigestTransform(sha512, "sha512", ...)\<close> in
  \<^verbatim>\<open>configurePipes\<close>.
\<close>

definition sha512Encoding :: "string \<Rightarrow> encoding" where
  "sha512Encoding sha512v =
    (if length sha512v = 128 \<and> \<not> includesStr sha512v ''+'' \<and> \<not> includesStr sha512v ''Z''
        \<and> \<not> includesStr sha512v ''=''
     then Hex else Base64)"

text \<open>
  The stages \<^verbatim>\<open>configurePipes\<close> puts into \<^verbatim>\<open>streams\<close>: a
  \<^verbatim>\<open>ProgressCallbackTransform\<close> (with the text of the content-length header, which the
  source hands to \<^verbatim>\<open>parseInt\<close>), a \<^verbatim>\<open>DigestTransform\<close>, and the write stream of
  the destination.
\<close>

datatype 'h stage = Progress string | Digest "'h digest_transform" | FileOut string

text \<open>
  \<^verbatim>\<open>configurePipes(options, response, destination, callback, cancellationToken)\<close>, its
  synchronous part: \<open>Inl e\<close> when \<^verbatim>\<open>checkSha2\<close> has called \<^verbatim>\<open>callback(e)\<close> and
  the function has returned before the write stream is created; otherwise the list
  \<^verbatim>\<open>streams\<close>, piped in this order behind the response.
\<close>

definition configurePipes ::
  "'h crypto \<Rightarrow> 'a download_options_scheme \<Rightarrow> response \<Rightarrow> string \<Rightarrow> error + 'h stage list" where
  "configurePipes C options response destination =
    (case checkSha2 (safeGetHeader response ''X-Checksum-Sha2'') (sha2 options) of
       Some e \<Rightarrow> Inl e
     | None \<Rightarrow>
        (let streams1 =
               (if onProgress options then
                  (case safeGetHeader response ''content-length'' of
                     None \<Rightarrow> []
                   | Some contentLength \<Rightarrow> [Progress contentLength])
                else []);
             streams2 =
               (case sha512 options of
                  Some sha512v \<Rightarrow>
                    streams1 @ [Digest (newDigestTransform C sha512v Sha512 (sha512Encoding sha512v))]
                | None \<Rightarrow>
                   (case sha2 options of
                      Some sha2v \<Rightarrow> streams1 @ [Digest (newDigestTransform C sha2v Sha256 Hex)]
                    | None \<Rightarrow> streams1))
         in Inr (streams2 @ [FileOut destination])))"

text \<open>The digest transforms among a list of stages.\<close>

fun digestStages :: "'h stage list \<Rightarrow> 'h digest_transform list" where
  "digestStages [] = []"
| "digestStages (Digest d # stages) = d # digestStages stages"
| "digestStages (s # stages) = digestStages stages"

text \<open>
  What a download attempt does that can be seen from outside, in order: a chunk written
  to the destination, \<^verbatim>\<open>fileOut.close\<close>, a call of \<^verbatim>\<open>callback\<close> (with an error
  or with null), and \<^verbatim>\<open>request.abort()\<close>, which \<^verbatim>\<open>doDownload\<close> registers with
  \<^verbatim>\<open>onCancel\<close>.
\<close>

datatype action = Write bytes | Close | Callback "error option" | Abort

text \<open>
  The handler \<^verbatim>\<open>configurePipes\<close> registers for the \<^verbatim>\<open>error\<close> event of every
  stage, given the token's \<^verbatim>\<open>cancelled\<close> flag at the time of the event.
\<close>

definition onStageError :: "bool \<Rightarrow> error \<Rightarrow> action list" where
  "onStageError isCancelled e = (if \<not> isCancelled then [Callback (Some e)] else [])"

text \<open>
  The handler of the \<^verbatim>\<open>finish\<close> event of the write stream:
  \<^verbatim>\<open>fileOut.close(callback)\<close>. The argument is the error, if any, that
  \<^verbatim>\<open>close\<close> reports.
\<close>

definition onFinish :: "string option \<Rightarrow> action list" where
  "onFinish closeResult = [Close, Callback (map_option CloseFailure closeResult)]"

text \<open>
  What happens to a download once its response is piped, one event at a time (the
  runtime is single-threaded): the response delivers a chunk; the response ends (with
  the result \<^verbatim>\<open>close\<close> will have, should the sink finish); the token is cancelled;
  the stage at an index emits \<^verbatim>\<open>error\<close> for a reason of its own; the request
  emits \<^verbatim>\<open>error\<close>.
\<close>

datatype event =
    Chunk bytes
  | ResponseEnd "string option"
  | Cancel
  | StageEmitsError nat string
  | RequestError string

text \<open>
  The handler \<^verbatim>\<open>addErrorAndTimeoutHandlers\<close> registers for the \<^verbatim>\<open>error\<close> event
  of the request: \<^verbatim>\<open>callback\<close> itself.
\<close>

definition onRequestError :: "error \<Rightarrow> action list" where
  "onRequestError e = [Callback (Some e)]"

text \<open>
  The stream plumbing is the runtime's. Piped stages hand every chunk on in order. A
  transform whose flush reports an error emits \<^verbatim>\<open>error\<close> and does not end its
  output side, so the stages behind it never finish. A stage that emits \<^verbatim>\<open>error\<close>
  is unpiped by the stage before it: it and the stages behind it receive nothing any more,
  while the stages before it go on receiving chunks and the end of the response.
  \<open>connected\<close> is the number of leading stages the response still feeds, and
  \<open>responseEnded\<close> says whether the response has ended.
\<close>

record 'h pipeline =
  streams :: "'h stage list"
  cancelled :: bool
  connected :: nat
  responseEnded :: bool
  trace :: "action list"

text \<open>
  Modelled from the spec: the transform of \<^verbatim>\<open>ProgressCallbackTransform\<close>, a class the
  source imports from \<^verbatim>\<open>./ProgressCallbackTransform\<close> and that is not in the source
  file. By the spec it reports the bytes seen to the caller's callback and is specified at
  that interface only; as a stage of the pipe it hands every chunk on.
\<close>

definition progressTransform :: "bytes \<Rightarrow> bytes" where
  "progressTransform chunk = chunk"

text \<open>A chunk passes the stages in order and is written by the sink.\<close>

fun pushChunk :: "'h crypto \<Rightarrow> 'h stage list \<Rightarrow> bytes \<Rightarrow> 'h stage list \<times> action list" where
  "pushChunk C [] chunk = ([], [])"
| "pushChunk C (Progress len # stages) chunk =
    (case pushChunk C stages (progressTransform chunk) of
       (stages1, acts) \<Rightarrow> (Progress len # stages1, acts))"
| "pushChunk C (Digest d # stages) chunk =
    (case digestTransform C d chunk of
       (d1, out) \<Rightarrow>
         (case pushChunk C stages out of (stages1, acts) \<Rightarrow> (Digest d1 # stages1, acts)))"
| "pushChunk C (FileOut destination # stages) chunk = (FileOut destination # stages, [Write chunk])"

text \<open>
  The end of the response passes the stages in order: each transform is flushed, and the
  sink finishes. A flush that reports an error stops the passage there.
\<close>

fun endStages ::
  "'h crypto \<Rightarrow> bool \<Rightarrow> string option \<Rightarrow> 'h stage list \<Rightarrow> 'h stage list \<times> action list" where
  "endStages C isCancelled closeResult [] = ([], [])"
| "endStages C isCancelled closeResult (Progress len # stages) =
    (case endStages C isCancelled closeResult stages of
       (stages1, acts) \<Rightarrow> (Progress len # stages1, acts))"
| "endStages C isCancelled closeResult (Digest d # stages) =
    (case digestFlush C d of
       (d1, Some e) \<Rightarrow> (Digest d1 # stages, onStageError isCancelled e)
     | (d1, None) \<Rightarrow>
         (case endStages C isCancelled closeResult stages of
            (stages1, acts) \<Rightarrow> (Digest d1 # stages1, acts)))"
| "endStages C isCancelled closeResult (FileOut destination # stages) =
    (FileOut destination # stages, onFinish closeResult)"

text \<open>
  One event. Chunks and the end of the response reach the connected stages only, and
  only while the response has not ended; the handlers of the error events run whenever
  their event occurs.
\<close>

fun step :: "'h crypto \<Rightarrow> event \<Rightarrow> 'h pipeline \<Rightarrow> 'h pipeline" where
  "step C (Chunk chunk) s =
    (if \<not> responseEnded s then
       (case pushChunk C (take (connected s) (streams s)) chunk of
          (stages1, acts) \<Rightarrow>
            s\<lparr>streams := stages1 @ drop (connected s) (streams s), trace := trace s @ acts\<rparr>)
     else s)"
| "step C (ResponseEnd closeResult) s =
    (if \<not> responseEnded s then
       (case endStages C (cancelled s) closeResult (take (connected s) (streams s)) of
          (stages1, acts) \<Rightarrow>
            s\<lparr>streams := stages1 @ drop (connected s) (streams s), responseEnded := True,
              trace := trace s @ acts\<rparr>)
     else s)"
| "step C Cancel s = s\<lparr>cancelled := True, trace := trace s @ [Abort]\<rparr>"
| "step C (StageEmitsError i message) s =
    (if i < length (streams s) then
       s\<lparr>connected := min (connected s) i,
         trace := trace s @ onStageError (cancelled s) (StageFailure message)\<rparr>
     else s)"
| "step C (RequestError message) s =
    s\<lparr>trace := trace s @ onRequestError (RequestFailure message)\<rparr>"

fun run :: "'h crypto \<Rightarrow> event list \<Rightarrow> 'h pipeline \<Rightarrow> 'h pipeline" where
  "run C [] s = s"
| "run C (e # es) s = run C es (step C e s)"

text \<open>The pipeline as \<^verbatim>\<open>configurePipes\<close> leaves it.\<close>

definition startPipeline :: "'h stage list \<Rightarrow> bool \<Rightarrow> 'h pipeline" where
  "startPipeline stages isCancelled =
    \<lparr>streams = stages, cancelled = isCancelled, connected = length stages,
     responseEnded = False, trace = []\<rparr>"

text \<open>
  The calls of \<^verbatim>\<open>callback\<close> that hand over the error of a stream stage: a checksum
  mismatch or an unfinished digest of the digest stage, or a failure a stage emits itself.
\<close>

fun isStageFailure :: "action \<Rightarrow> bool" where
  "isStageFailure (Callback (Some (ChecksumMismatch a e act))) = True"
| "isStageFailure (Callback (Some NotFinishedYet)) = True"
| "isStageFailure (Callback (Some (StageFailure message))) = True"
| "isStageFailure a = False"

text \<open>How the completion signal of a download is settled.\<close>

datatype settlement = Succeeded | Failed error | Cancelled

text \<open>
  Modelled from the spec: the completion signal of a download. The source hands
  \<^verbatim>\<open>doDownload\<close> a \<^verbatim>\<open>callback\<close> and an \<^verbatim>\<open>onCancel\<close> made by
  \<^verbatim>\<open>CancellationToken.createPromise\<close>, which is not in the source file. By the spec the
  signal is settled once, by whatever comes first: a call of the callback (success on
  null, failure on an error), or the cancellation of the token, which rejects the wrapped
  operation as cancelled and aborts the request.
\<close>

fun completionSignal :: "action list \<Rightarrow> settlement option" where
  "completionSignal [] = None"
| "completionSignal (Callback None # later) = Some Succeeded"
| "completionSignal (Callback (Some e) # later) = Some (Failed e)"
| "completionSignal (Abort # later) = Some Cancelled"
| "completionSignal (a # later) = completionSignal later"

subsection \<open>Serialization for diagnostics\<close>

definition placeholder :: string where
  "placeholder = ''<stripped sensitive data>''"

text \<open>The condition of the replacer function of \<^verbatim>\<open>safeStringifyJson\<close>.\<close>

definition isStripped :: "string set option \<Rightarrow> string \<Rightarrow> bool" where
  "isStripped skippedNames name =
    (endsWith name ''authorization'' \<or> endsWith name ''Password'' \<or> endsWith name ''PASSWORD''
     \<or> endsWith name ''Token'' \<or> includesStr name ''password'' \<or> includesStr name ''token''
     \<or> (case skippedNames of None \<Rightarrow> False | Some names \<Rightarrow> name \<in> names))"

text \<open>The replacer function \<^verbatim>\<open>(name, value) => ...\<close>.\<close>

definition replacer :: "string set option \<Rightarrow> string \<Rightarrow> json \<Rightarrow> json" where
  "replacer skippedNames name v =
    (if isStripped skippedNames name then JString placeholder else v)"

text \<open>The decimal text of an array index, the property name of an array element.\<close>

fun indexName :: "nat \<Rightarrow> string" where
  "indexName n =
    (if n < 10 then [''0123456789'' ! n]
     else indexName (n div 10) @ [''0123456789'' ! (n mod 10)])"

declare indexName.simps [simp del]

text \<open>
  \<^verbatim>\<open>JSON.stringify(data, replacer, 2)\<close> visits a property by calling the replacer with
  its name and value, and then visits the properties of what the replacer returned: the
  members of an object under their keys, the elements of an array under their indices.
  The function gives the value that is then printed, with this file's replacer.
\<close>

function stringifyProperty :: "string set option \<Rightarrow> string \<Rightarrow> json \<Rightarrow> json" where
  "stringifyProperty skippedNames name v =
    (case replacer skippedNames name v of
       JObject members \<Rightarrow>
         JObject (map (\<lambda>(k, w). (k, stringifyProperty skippedNames k w)) members)
     | JArray elements \<Rightarrow>
         JArray (map (\<lambda>(i, w). stringifyProperty skippedNames (indexName i) w)
                   (zip [0 ..< length elements] elements))
     | leaf \<Rightarrow> leaf)"
  by pat_completeness auto
termination
proof (relation "measure (\<lambda>(skippedNames, name, v). size v)")
  show "wf (measure (\<lambda>(skippedNames, name, v). size v))"
    by simp
next
  fix skippedNames :: "string set option" and name :: string and v :: json
    and members :: "(string \<times> json) list" and x :: "string \<times> json" and k :: string and w :: json
  assume r: "replacer skippedNames name v = JObject members"
    and x: "x \<in> set members" and kw: "(k, w) = x"
  from r have v: "v = JObject members"
    by (simp add: replacer_def split: if_splits)
  from x kw have "(k, w) \<in> set members"
    by simp
  then have "size w < size (JObject members)"
    by (induction members) auto
  then show "((skippedNames, k, w), (skippedNames, name, v)) \<in> measure (\<lambda>(skippedNames, name, v). size v)"
    using v by simp
next
  fix skippedNames :: "string set option" and name :: string and v :: json
    and elements :: "json list" and x :: "nat \<times> json" and i :: nat and w :: json
  assume r: "replacer skippedNames name v = JArray elements"
    and x: "x \<in> set (zip [0 ..< length elements] elements)" and iw: "(i, w) = x"
  from r have v: "v = JArray elements"
    by (simp add: replacer_def split: if_splits)
  from x iw have "w \<in> set elements"
    by (auto dest: set_zip_rightD)
  then have "size w < size (JArray elements)"
    by (induction elements) auto
  then show "((skippedNames, indexName i, w), (skippedNames, name, v))
      \<in> measure (\<lambda>(skippedNames, name, v). size v)"
    using v by simp
qed

declare stringifyProperty.simps [simp del]

text \<open>\<^verbatim>\<open>safeStringifyJson(data, skippedNames)\<close>: the root is visited under the empty name.\<close>

definition safeStringifyJson :: "json \<Rightarrow> string set option \<Rightarrow> json" where
  "safeStringifyJson data skippedNames = stringifyProperty skippedNames [] data"

text \<open>A value that is neither an object nor an array.\<close>

fun isLeaf :: "json \<Rightarrow> bool" where
  "isLeaf (JObject members) = False"
| "isLeaf (JArray elements) = False"
| "isLeaf v = True"

text \<open>A string in lower case: the letters A to Z are replaced, the rest is kept.\<close>

definition toLowerChar :: "char \<Rightarrow> char" where
  "toLowerChar c =
    (case map_of (zip ''ABCDEFGHIJKLMNOPQRSTUVWXYZ'' ''abcdefghijklmnopqrstuvwxyz'') c of
       None \<Rightarrow> c
     | Some l \<Rightarrow> l)"

definition toLowerCase :: "string \<Rightarrow> string" where
  "toLowerCase s = map toLowerChar s"

text \<open>
  The rule in the words of the specification: a key is sensitive when its name, compared
  without regard to case, contains one of the three words.
\<close>

definition specSensitive :: "string \<Rightarrow> bool" where
  "specSensitive name =
    (includesStr (toLowerCase name) ''token'' \<or> includesStr (toLowerCase name) ''password''
     \<or> includesStr (toLowerCase name) ''authorization'')"

text \<open>
  The encoding rule in the words of the specification: hex when the text has exactly 128
  characters and none of them is a plus sign, a capital Z or an equals sign.
\<close>

definition specEncoding :: "string \<Rightarrow> encoding" where
  "specEncoding s =
    (if length s = 128 \<and> CHR ''+'' \<notin> set s \<and> CHR ''Z'' \<notin> set s \<and> CHR ''='' \<notin> set s
     then Hex else Base64)"

subsection \<open>Concrete inputs\<close>

text \<open>
  A platform that knows two URLs, request options with a token, some responses and
  download options, and a toy hash (the number of bytes seen, printed as that many
  letters) on which the definitions can be evaluated.
\<close>

definition examplePlatform :: platform where
  "examplePlatform =
    \<lparr>parseUrl = (\<lambda>u.
        if u = ''https://bucket.s3.amazonaws.com/file'' then
          \<lparr>url_protocol = Some ''https:'', url_hostname = Some ''bucket.s3.amazonaws.com'',
           url_port = None, url_path = Some ''/file''\<rparr>
        else if u = ''https://other.example.com/file'' then
          \<lparr>url_protocol = Some ''https:'', url_hostname = Some ''other.example.com'',
           url_port = None, url_path = Some ''/file''\<rparr>
        else \<lparr>url_protocol = None, url_hostname = None, url_port = None, url_path = Some u\<rparr>),
      newURL = (\<lambda>u.
        if u = ''https://bucket.s3.amazonaws.com/file'' then Inr ''bucket.s3.amazonaws.com''
        else if u = ''https://other.example.com/file'' then Inr ''other.example.com''
        else Inl TypeError),
      electron = False,
      JSON_parse = (\<lambda>s. Inl SyntaxError)\<rparr>"

definition exampleOptions :: request_options where
  "exampleOptions =
    \<lparr>protocol = Some ''https:'', hostname = Some ''api.example.com'',
     port = Some (PortNumber 8443), path = Some ''/releases/latest'',
     httpMethod = Some ''GET'',
     headers = Some [''authorization'' \<mapsto> HStr ''token XYZ'',
                     ''Cache-Control'' \<mapsto> HStr ''max-age=0'']\<rparr>"

text \<open>The example options after a redirect to \<open>https://other.example.com/file\<close>.\<close>

definition exampleRedirected :: request_options where
  "exampleRedirected =
    \<lparr>protocol = Some ''https:'', hostname = Some ''other.example.com'',
     port = None, path = Some ''/file'', httpMethod = Some ''GET'',
     headers = Some [''authorization'' \<mapsto> HStr ''token XYZ'',
                     ''Cache-Control'' \<mapsto> HStr ''no-cache'',
                     ''User-Agent'' \<mapsto> HStr ''electron-builder'']\<rparr>"

text \<open>
  Request options whose token is stored under the capitalised header name, and what
  becomes of them on a redirect to \<open>https://bucket.s3.amazonaws.com/file\<close>.
\<close>

definition capitalizedOptions :: request_options where
  "capitalizedOptions =
    \<lparr>protocol = Some ''https:'', hostname = Some ''api.example.com'',
     port = None, path = Some ''/releases/latest'', httpMethod = Some ''GET'',
     headers = Some [''Authorization'' \<mapsto> HStr ''token XYZ'']\<rparr>"

definition capitalizedRedirected :: request_options where
  "capitalizedRedirected =
    \<lparr>protocol = Some ''https:'', hostname = Some ''bucket.s3.amazonaws.com'',
     port = None, path = Some ''/file'', httpMethod = Some ''GET'',
     headers = Some [''Authorization'' \<mapsto> HStr ''token XYZ'',
                     ''User-Agent'' \<mapsto> HStr ''electron-builder'',
                     ''Cache-Control'' \<mapsto> HStr ''no-cache'']\<rparr>"

definition redirectResponse :: response where
  "redirectResponse =
    \<lparr>statusCode = Some 302, statusMessage = Some ''Found'',
     responseHeaders = [''location'' \<mapsto> Single ''https://other.example.com/file''],
     body = ''''\<rparr>"

definition okResponse :: response where
  "okResponse =
    \<lparr>statusCode = Some 200, statusMessage = Some ''OK'', responseHeaders = Map.empty,
     body = ''ok''\<rparr>"

definition fileResponse :: response where
  "fileResponse =
    \<lparr>statusCode = Some 200, statusMessage = Some ''OK'',
     responseHeaders = [''content-length'' \<mapsto> Single ''2''], body = ''''\<rparr>"

text \<open>A response that advertises a SHA-256 value, under the lower-case name.\<close>

definition advertisedResponse :: response where
  "advertisedResponse =
    \<lparr>statusCode = Some 200, statusMessage = Some ''OK'',
     responseHeaders = [''x-checksum-sha2'' \<mapsto> Single ''yy'',
                        ''content-length'' \<mapsto> Single ''2''],
     body = []\<rparr>"

definition sha2Options :: download_options where
  "sha2Options = \<lparr>sha2 = Some ''xx'', sha512 = None, onProgress = True\<rparr>"

definition bothOptions :: download_options where
  "bothOptions = \<lparr>sha2 = Some ''xx'', sha512 = Some ''xxx'', onProgress = False\<rparr>"

definition toyCrypto :: "nat crypto" where
  "toyCrypto =
    \<lparr>createHash = (\<lambda>a. 0), hashUpdate = (\<lambda>h chunk. h + length chunk),
     hashDigest = (\<lambda>h enc. replicate h CHR ''x'')\<rparr>"

section \<open>Properties\<close>

subsection \<open>Strings\<close>

lemma includesStr_single: "includesStr s [c] \<longleftrightarrow> c \<in> set s"
  by (induction s) (auto simp: startsWith_def)

lemma includesStr_startsWith: "startsWith s p \<Longrightarrow> includesStr s p"
  by (cases s) (auto simp: startsWith_def)

lemma includesStr_append: "includesStr (a @ p @ b) p"
proof (induction a)
  case Nil
  have "startsWith (p @ b) p"
    by (simp add: startsWith_def)
  then have "includesStr (p @ b) p"
    by (rule includesStr_startsWith)
  then show ?case by simp
next
  case (Cons c a)
  then show ?case by simp
qed

lemma includesStr_decompose: "includesStr s p \<Longrightarrow> \<exists>a b. s = a @ p @ b"
proof (induction s)
  case Nil
  then show ?case by simp
next
  case (Cons c s)
  show ?case
  proof (cases "startsWith (c # s) p")
    case True
    then have "c # s = [] @ p @ drop (length p) (c # s)"
      by (metis append_Nil append_take_drop_id startsWith_def)
    then show ?thesis by blast
  next
    case False
    with Cons.prems have "includesStr s p" by simp
    then obtain a b where "s = a @ p @ b"
      using Cons.IH by blast
    then have "c # s = (c # a) @ p @ b" by simp
    then show ?thesis by blast
  qed
qed

lemma endsWith_includesStr: "endsWith s p \<Longrightarrow> includesStr s p"
proof -
  assume e: "endsWith s p"
  then have "s = take (length s - length p) s @ p @ []"
    by (metis append_Nil2 append_take_drop_id endsWith_def)
  then show ?thesis
    by (metis includesStr_append)
qed

subsection \<open>Rebuilding request options for a redirect\<close>

lemma header_configureRequestOptions:
  "header (configureRequestOptions P options None None) name =
    (if name = ''Cache-Control'' then Some (HStr ''no-cache'')
     else if name = ''User-Agent'' then
       (case header options ''User-Agent'' of
          None \<Rightarrow> Some (HStr ''electron-builder'') | Some v \<Rightarrow> Some v)
     else header options name)"
  by (auto simp: configureRequestOptions_def header_def Let_def split: option.splits)

lemma header_configureRequestOptionsFromUrl:
  "header (configureRequestOptionsFromUrl P url options) name =
    (if name = ''Cache-Control'' then Some (HStr ''no-cache'')
     else if name = ''User-Agent'' then
       (case header options ''User-Agent'' of
          None \<Rightarrow> Some (HStr ''electron-builder'') | Some v \<Rightarrow> Some v)
     else header options name)"
  unfolding configureRequestOptionsFromUrl_def Let_def
  by (simp add: header_configureRequestOptions) (auto simp: header_def split: option.splits)

lemma headers_configureRequestOptionsFromUrl:
  "\<exists>hs. headers (configureRequestOptionsFromUrl P url options) = Some hs"
  by (auto simp: configureRequestOptionsFromUrl_def configureRequestOptions_def Let_def
      split: option.splits)

lemma fields_configureRequestOptions:
  "protocol (configureRequestOptions P options None None) =
     (if protocol options = None \<and> electron P then Some ''https:'' else protocol options)"
  "hostname (configureRequestOptions P options None None) = hostname options"
  "port (configureRequestOptions P options None None) = port options"
  "path (configureRequestOptions P options None None) = path options"
  "httpMethod (configureRequestOptions P options None None) = httpMethod options"
  "request_options.more (configureRequestOptions P options None None) = request_options.more options"
  by (simp_all add: configureRequestOptions_def Let_def)

lemma fields_configureRequestOptionsFromUrl:
  "protocol (configureRequestOptionsFromUrl P url options) =
     (if url_protocol (parseUrl P url) = None \<and> electron P then Some ''https:''
      else url_protocol (parseUrl P url))"
  "hostname (configureRequestOptionsFromUrl P url options) = url_hostname (parseUrl P url)"
  "port (configureRequestOptionsFromUrl P url options) = map_option PortString (url_port (parseUrl P url))"
  "path (configureRequestOptionsFromUrl P url options) = url_path (parseUrl P url)"
  "httpMethod (configureRequestOptionsFromUrl P url options) = httpMethod options"
  "request_options.more (configureRequestOptionsFromUrl P url options) = request_options.more options"
  by (auto simp: configureRequestOptionsFromUrl_def Let_def fields_configureRequestOptions
      split: option.splits)

text \<open>
  What \<^verbatim>\<open>prepareRedirectUrlOptions\<close> returns: the options built from the URL, with
  or without their authorization header.
\<close>

lemma prepareRedirectUrlOptions_cases:
  assumes "prepareRedirectUrlOptions P redirectUrl options = Inr newOptions"
  shows "newOptions = configureRequestOptionsFromUrl P redirectUrl options \<or>
         (\<exists>hs. headers (configureRequestOptionsFromUrl P redirectUrl options) = Some hs \<and>
            newOptions = (configureRequestOptionsFromUrl P redirectUrl options)
              \<lparr>headers := Some (hs(''authorization'' := None))\<rparr>)"
  using assms
  by (auto simp: prepareRedirectUrlOptions_def Let_def
      split: option.splits sum.splits bool.splits if_splits)

lemma prepareRedirectUrlOptions_without_authorization:
  assumes "header options ''authorization'' = None"
  shows "prepareRedirectUrlOptions P redirectUrl options =
           Inr (configureRequestOptionsFromUrl P redirectUrl options)"
proof -
  have "header (configureRequestOptionsFromUrl P redirectUrl options) ''authorization'' = None"
    using assms by (simp add: header_configureRequestOptionsFromUrl)
  then show ?thesis
    by (auto simp: prepareRedirectUrlOptions_def Let_def header_def split: option.splits)
qed

lemmas redirect_defs =
  statusAtLeast400_def safeGetHeader_def maxRedirects_def postIncrement_def
  prepareRedirectUrlOptions_def configureRequestOptionsFromUrl_def configureRequestOptions_def
  authorizationStartsWith_def startsWith_def endsWith_def header_def Let_def

text \<open>
  C2, as the claim states it, fails: the prior headers carry the token under the name
  \<open>Authorization\<close>, the redirect goes to \<open>bucket.s3.amazonaws.com\<close>, and the
  rebuilt options still carry the token. The source examines the key
  \<open>authorization\<close> only.
\<close>

theorem capitalized_authorization_is_sent_on:
  "header capitalizedOptions ''Authorization'' = Some (HStr ''token XYZ'') \<and>
   startsWith ''token XYZ'' ''token'' \<and>
   newURL examplePlatform ''https://bucket.s3.amazonaws.com/file'' = Inr ''bucket.s3.amazonaws.com'' \<and>
   endsWith ''bucket.s3.amazonaws.com'' ''.amazonaws.com'' \<and>
   prepareRedirectUrlOptions examplePlatform ''https://bucket.s3.amazonaws.com/file''
     capitalizedOptions = Inr capitalizedRedirected \<and>
   header capitalizedRedirected ''Authorization'' = Some (HStr ''token XYZ'')"
  by (simp add: examplePlatform_def capitalizedOptions_def capitalizedRedirected_def
      redirect_defs)

text \<open>
  C2, amended. When the prior headers carry a string under the key \<open>authorization\<close>
  (in lower case, as \<^verbatim>\<open>configureRequestOptions\<close> writes it) and the redirect URL
  parses, the rebuilt options are returned, and that header is gone if the string starts
  with \<open>token\<close> and the host of the redirect URL ends in \<open>.amazonaws.com\<close>; for
  every other host, and for every other string, it is the prior value.
\<close>

theorem prepareRedirectUrlOptions_authorization:
  assumes "header options ''authorization'' = Some (HStr a)"
    and "newURL P redirectUrl = Inr host"
  shows "\<exists>newOptions. prepareRedirectUrlOptions P redirectUrl options = Inr newOptions \<and>
           header newOptions ''authorization'' =
             (if startsWith a ''token'' \<and> endsWith host ''.amazonaws.com'' then None
              else Some (HStr a))"
proof -
  obtain hs where hs: "headers (configureRequestOptionsFromUrl P redirectUrl options) = Some hs"
    using headers_configureRequestOptionsFromUrl by blast
  have "header (configureRequestOptionsFromUrl P redirectUrl options) ''authorization''
          = Some (HStr a)"
    using assms(1) by (simp add: header_configureRequestOptionsFromUrl)
  then have a: "hs ''authorization'' = Some (HStr a)"
    using hs by (simp add: header_def)
  show ?thesis
    using hs a assms(2)
    by (cases "startsWith a ''token''")
      (auto simp: prepareRedirectUrlOptions_def Let_def authorizationStartsWith_def header_def)
qed

theorem prepareRedirectUrlOptions_authorization_witness:
  "header exampleOptions ''authorization'' = Some (HStr ''token XYZ'') \<and>
   newURL examplePlatform ''https://bucket.s3.amazonaws.com/file'' = Inr ''bucket.s3.amazonaws.com'' \<and>
   newURL examplePlatform ''https://other.example.com/file'' = Inr ''other.example.com'' \<and>
   (\<exists>newOptions.
      prepareRedirectUrlOptions examplePlatform ''https://bucket.s3.amazonaws.com/file'' exampleOptions
        = Inr newOptions \<and>
      header newOptions ''authorization'' = None) \<and>
   (\<exists>newOptions.
      prepareRedirectUrlOptions examplePlatform ''https://other.example.com/file'' exampleOptions
        = Inr newOptions \<and>
      header newOptions ''authorization'' = Some (HStr ''token XYZ''))"
proof -
  have h: "header exampleOptions ''authorization'' = Some (HStr ''token XYZ'')"
    by (simp add: exampleOptions_def header_def)
  have u1: "newURL examplePlatform ''https://bucket.s3.amazonaws.com/file''
              = Inr ''bucket.s3.amazonaws.com''"
    by (simp add: examplePlatform_def)
  have u2: "newURL examplePlatform ''https://other.example.com/file'' = Inr ''other.example.com''"
    by (simp add: examplePlatform_def)
  have t: "startsWith ''token XYZ'' ''token''"
    by (simp add: startsWith_def)
  have e1: "endsWith ''bucket.s3.amazonaws.com'' ''.amazonaws.com''"
    by (simp add: endsWith_def)
  have e2: "\<not> endsWith ''other.example.com'' ''.amazonaws.com''"
    by (simp add: endsWith_def)
  show ?thesis
    using h u1 u2 t e1 e2
      prepareRedirectUrlOptions_authorization [OF h u1]
      prepareRedirectUrlOptions_authorization [OF h u2]
    by simp
qed

text \<open>
  C10, as the claim states it, fails: the rebuilt options do not keep the prior
  \<open>Cache-Control\<close> header. The prior options ask for \<open>max-age=0\<close>; after a redirect
  to another host the header is \<open>no-cache\<close>.
\<close>

theorem prepareRedirectUrlOptions_changes_headers:
  "prepareRedirectUrlOptions examplePlatform ''https://other.example.com/file'' exampleOptions
     = Inr exampleRedirected \<and>
   header exampleOptions ''Cache-Control'' = Some (HStr ''max-age=0'') \<and>
   header exampleRedirected ''Cache-Control'' = Some (HStr ''no-cache'') \<and>
   header exampleOptions ''User-Agent'' = None \<and>
   header exampleRedirected ''User-Agent'' = Some (HStr ''electron-builder'')"
  by (simp add: examplePlatform_def exampleOptions_def exampleRedirected_def redirect_defs
        fun_upd_twist)

text \<open>
  C10, amended. The rebuilt options take hostname, path and port from the parsed redirect
  URL (no port when the URL has none), and the protocol too, except that on Electron a
  URL without protocol gives \<open>https:\<close>. The method and every field the source does not
  name are the prior ones. Of the headers, \<open>Cache-Control\<close> becomes \<open>no-cache\<close>,
  \<open>User-Agent\<close> is set to \<open>electron-builder\<close> when it was absent, the authorization
  header is either the prior one or removed, and every other header is the prior one.
\<close>

theorem prepareRedirectUrlOptions_frame:
  assumes "prepareRedirectUrlOptions P redirectUrl options = Inr newOptions"
  shows "protocol newOptions =
           (if url_protocol (parseUrl P redirectUrl) = None \<and> electron P then Some ''https:''
            else url_protocol (parseUrl P redirectUrl)) \<and>
         hostname newOptions = url_hostname (parseUrl P redirectUrl) \<and>
         path newOptions = url_path (parseUrl P redirectUrl) \<and>
         port newOptions = map_option PortString (url_port (parseUrl P redirectUrl)) \<and>
         httpMethod newOptions = httpMethod options \<and>
         request_options.more newOptions = request_options.more options \<and>
         header newOptions ''Cache-Control'' = Some (HStr ''no-cache'') \<and>
         header newOptions ''User-Agent'' =
           (case header options ''User-Agent'' of
              None \<Rightarrow> Some (HStr ''electron-builder'') | Some v \<Rightarrow> Some v) \<and>
         (header newOptions ''authorization'' = header options ''authorization'' \<or>
          header newOptions ''authorization'' = None) \<and>
         (\<forall>name. name \<notin> {''Cache-Control'', ''User-Agent'', ''authorization''} \<longrightarrow>
            header newOptions name = header options name)"
proof -
  let ?c = "configureRequestOptionsFromUrl P redirectUrl options"
  from prepareRedirectUrlOptions_cases [OF assms]
  consider (same) "newOptions = ?c"
    | (dropped) hs where "headers ?c = Some hs"
        "newOptions = ?c\<lparr>headers := Some (hs(''authorization'' := None))\<rparr>"
    by blast
  then show ?thesis
  proof cases
    case same
    then show ?thesis
      by (simp add: fields_configureRequestOptionsFromUrl header_configureRequestOptionsFromUrl)
  next
    case dropped
    have hd: "header newOptions name =
        (if name = ''authorization'' then None else header ?c name)" for name
      using dropped by (simp add: header_def)
    have f: "protocol newOptions = protocol ?c" "hostname newOptions = hostname ?c"
      "path newOptions = path ?c" "port newOptions = port ?c"
      "httpMethod newOptions = httpMethod ?c"
      "request_options.more newOptions = request_options.more ?c"
      using dropped by simp_all
    show ?thesis
      unfolding f hd
      by (simp add: fields_configureRequestOptionsFromUrl header_configureRequestOptionsFromUrl)
  qed
qed

theorem prepareRedirectUrlOptions_frame_witness:
  "prepareRedirectUrlOptions examplePlatform ''https://other.example.com/file'' exampleOptions
     = Inr exampleRedirected \<and>
   port exampleOptions = Some (PortNumber 8443) \<and>
   url_port (parseUrl examplePlatform ''https://other.example.com/file'') = None \<and>
   port exampleRedirected = None \<and>
   hostname exampleRedirected = url_hostname (parseUrl examplePlatform ''https://other.example.com/file'') \<and>
   httpMethod exampleRedirected = httpMethod exampleOptions \<and>
   header exampleRedirected ''Cache-Control'' = Some (HStr ''no-cache'') \<and>
   header exampleRedirected ''authorization'' = header exampleOptions ''authorization''"
proof -
  have r: "prepareRedirectUrlOptions examplePlatform ''https://other.example.com/file''
             exampleOptions = Inr exampleRedirected"
    by (simp add: examplePlatform_def exampleOptions_def exampleRedirected_def redirect_defs
        fun_upd_twist)
  have p: "port exampleOptions = Some (PortNumber 8443)"
    by (simp add: exampleOptions_def)
  have u: "url_port (parseUrl examplePlatform ''https://other.example.com/file'') = None"
    by (simp add: examplePlatform_def)
  have a: "header exampleRedirected ''authorization'' = header exampleOptions ''authorization''"
    by (simp add: exampleOptions_def exampleRedirected_def header_def)
  show ?thesis
    using r p u a prepareRedirectUrlOptions_frame [OF r] by simp
qed

subsection \<open>The redirect counter\<close>

text \<open>
  Neither path ever passes on a counter other than the one it was given: a chain of any
  length, started at zero, is followed to its end.
\<close>

lemma doDownload_follows_every_chain:
  assumes "header options ''authorization'' = None"
    and "\<not> statusAtLeast400 r" and "safeGetHeader r ''location'' = Some url"
    and "\<not> statusAtLeast400 final" and "safeGetHeader final ''location'' = None"
  shows "doDownload P (replicate n r @ [final]) options 0 = ConfigurePipes final"
  using assms(1)
proof (induction n arbitrary: options)
  case 0
  show ?case using assms(4,5) by simp
next
  case (Suc n)
  let ?next = "configureRequestOptionsFromUrl P url options"
  have p: "prepareRedirectUrlOptions P url options = Inr ?next"
    using Suc.prems by (rule prepareRedirectUrlOptions_without_authorization)
  have "header ?next ''authorization'' = None"
    using Suc.prems by (simp add: header_configureRequestOptionsFromUrl)
  then have "doDownload P (replicate n r @ [final]) ?next 0 = ConfigurePipes final"
    by (rule Suc.IH)
  then show ?case
    using assms(2,3) p by (simp add: maxRedirects_def postIncrement_def)
qed

lemma doApiRequest_follows_every_chain:
  assumes "header options ''authorization'' = None"
    and "statusCode r = Some 302" and "safeGetHeader r ''location'' = Some url"
    and "statusCode final = Some 200" and "safeGetHeader final ''location'' = None"
    and "body final \<noteq> []"
  shows "doApiRequest P (replicate n r @ [final]) options 0 = Resolved (Some (body final))"
  using assms(1)
proof (induction n arbitrary: options)
  case 0
  show ?case using assms(4,5,6) by (simp add: statusAtLeast400_def)
next
  case (Suc n)
  let ?next = "configureRequestOptionsFromUrl P url options"
  have p: "prepareRedirectUrlOptions P url options = Inr ?next"
    using Suc.prems by (rule prepareRedirectUrlOptions_without_authorization)
  have "header ?next ''authorization'' = None"
    using Suc.prems by (simp add: header_configureRequestOptionsFromUrl)
  then have "doApiRequest P (replicate n r @ [final]) ?next 0 = Resolved (Some (body final))"
    by (rule Suc.IH)
  then show ?case
    using assms(2,3) p by simp
qed

text \<open>
  C1 does not hold of the code. Eleven consecutive redirect responses followed by a
  response with status 200: \<^verbatim>\<open>doDownload\<close> goes on to \<^verbatim>\<open>configurePipes\<close> with
  the last response, and \<^verbatim>\<open>doApiRequest\<close> resolves with its body. Neither fails
  with \<open>TooManyRedirects\<close>.
\<close>

theorem eleven_redirects_are_followed:
  "doDownload examplePlatform (replicate 11 redirectResponse @ [okResponse]) exampleOptions 0
     = ConfigurePipes okResponse \<and>
   doApiRequest examplePlatform (replicate 11 redirectResponse @ [okResponse]) exampleOptions 0
     = Resolved (Some ''ok'')"
  by (simp add: eval_nat_numeral examplePlatform_def exampleOptions_def redirectResponse_def
      okResponse_def redirect_defs)

subsection \<open>The stages of a download\<close>

lemma configurePipes_streams:
  assumes "configurePipes C options response destination = Inr sts"
  shows "\<exists>pre. (pre = [] \<or> (\<exists>len. pre = [Progress len])) \<and>
           sts = pre @
             (case sha512 options of
                Some s \<Rightarrow> [Digest (newDigestTransform C s Sha512 (sha512Encoding s))]
              | None \<Rightarrow>
                 (case sha2 options of
                    Some t \<Rightarrow> [Digest (newDigestTransform C t Sha256 Hex)]
                  | None \<Rightarrow> [])) @ [FileOut destination]"
  using assms
  by (auto simp: configurePipes_def Let_def split: option.splits if_splits)

lemma digestStages_append: "digestStages (xs @ ys) = digestStages xs @ digestStages ys"
  by (induction xs rule: digestStages.induct) auto

lemma digestStages_configurePipes:
  assumes "configurePipes C options response destination = Inr sts"
  shows "digestStages sts =
           (case sha512 options of
              Some s \<Rightarrow> [newDigestTransform C s Sha512 (sha512Encoding s)]
            | None \<Rightarrow>
               (case sha2 options of
                  Some t \<Rightarrow> [newDigestTransform C t Sha256 Hex]
                | None \<Rightarrow> []))"
proof -
  from configurePipes_streams [OF assms] obtain pre where
    pre: "pre = [] \<or> (\<exists>len. pre = [Progress len])" and
    sts: "sts = pre @
             (case sha512 options of
                Some s \<Rightarrow> [Digest (newDigestTransform C s Sha512 (sha512Encoding s))]
              | None \<Rightarrow>
                 (case sha2 options of
                    Some t \<Rightarrow> [Digest (newDigestTransform C t Sha256 Hex)]
                  | None \<Rightarrow> [])) @ [FileOut destination]"
    by blast
  from pre have "digestStages pre = []" by auto
  then show ?thesis
    unfolding sts by (auto simp: digestStages_append split: option.splits)
qed

lemmas pipes_defs =
  configurePipes_def checkSha2_def safeGetHeader_def newDigestTransform_def sha512Encoding_def
  startPipeline_def progressTransform_def digestTransform_def digestFlush_def validate_def
  onStageError_def
  onFinish_def Let_def

text \<open>
  C5. The encoding \<^verbatim>\<open>configurePipes\<close> chooses for an expected SHA-512 text is the
  one the rule names: hex when the text is exactly 128 characters long and has no plus
  sign, no capital Z and no equals sign in it, base64 otherwise; and that is the encoding
  of the digest stage of a download with this expected SHA-512 text.
\<close>

theorem sha512Encoding_is_the_rule:
  "sha512Encoding s = specEncoding s \<and>
   (sha512 options = Some s \<longrightarrow> configurePipes C options response destination = Inr sts \<longrightarrow>
      map encoding (digestStages sts) = [specEncoding s])"
proof -
  have e: "sha512Encoding s = specEncoding s"
    by (simp add: sha512Encoding_def specEncoding_def includesStr_single)
  have "map encoding (digestStages sts) = [specEncoding s]"
    if "sha512 options = Some s" "configurePipes C options response destination = Inr sts"
    using digestStages_configurePipes [OF that(2)] that(1) e
    by (simp add: newDigestTransform_def)
  then show ?thesis
    using e by blast
qed

theorem sha512Encoding_is_the_rule_witness:
  "sha512Encoding (replicate 128 CHR ''a'') = Hex \<and>
   specEncoding (replicate 128 CHR ''a'') = Hex \<and>
   sha512Encoding (replicate 127 CHR ''a'' @ ''='') = Base64 \<and>
   specEncoding (replicate 127 CHR ''a'' @ ''='') = Base64 \<and>
   sha512 bothOptions = Some ''xxx'' \<and>
   configurePipes toyCrypto bothOptions fileResponse ''out'' =
     Inr [Digest (newDigestTransform toyCrypto ''xxx'' Sha512 Base64), FileOut ''out''] \<and>
   map encoding (digestStages
     [Digest (newDigestTransform toyCrypto ''xxx'' Sha512 Base64), FileOut ''out'']) =
     [specEncoding ''xxx'']"
proof -
  have a: "specEncoding (replicate 128 CHR ''a'') = Hex"
    by (simp add: specEncoding_def)
  have b: "specEncoding (replicate 127 CHR ''a'' @ ''='') = Base64"
    by (simp add: specEncoding_def)
  have o: "sha512 bothOptions = Some ''xxx''"
    by (simp add: bothOptions_def)
  have c: "configurePipes toyCrypto bothOptions fileResponse ''out'' =
      Inr [Digest (newDigestTransform toyCrypto ''xxx'' Sha512 Base64), FileOut ''out'']"
    by (simp add: pipes_defs toyCrypto_def bothOptions_def fileResponse_def)
  show ?thesis
    using a b o c
      sha512Encoding_is_the_rule [of "replicate 128 CHR ''a''" bothOptions toyCrypto fileResponse
        "''out''" "[]"]
      sha512Encoding_is_the_rule [of "replicate 127 CHR ''a'' @ ''=''" bothOptions toyCrypto
        fileResponse "''out''" "[]"]
      sha512Encoding_is_the_rule [of "''xxx''" bothOptions toyCrypto fileResponse "''out''"
        "[Digest (newDigestTransform toyCrypto ''xxx'' Sha512 Base64), FileOut ''out'']"]
    by simp
qed

text \<open>
  C6. Whatever \<^verbatim>\<open>configurePipes\<close> pipes holds at most one digest transform: the
  SHA-512 one when an expected SHA-512 value is supplied (an expected SHA-256 value or
  not), the SHA-256 one in hex when only an expected SHA-256 value is supplied, and none
  when neither is.
\<close>

theorem configurePipes_one_digest:
  assumes "configurePipes C options response destination = Inr sts"
  shows "digestStages sts =
           (case sha512 options of
              Some s \<Rightarrow> [newDigestTransform C s Sha512 (sha512Encoding s)]
            | None \<Rightarrow>
               (case sha2 options of
                  Some t \<Rightarrow> [newDigestTransform C t Sha256 Hex]
                | None \<Rightarrow> [])) \<and>
         length (digestStages sts) \<le> 1 \<and>
         (sha512 options \<noteq> None \<longrightarrow> map algorithm (digestStages sts) = [Sha512]) \<and>
         (sha512 options = None \<and> sha2 options \<noteq> None \<longrightarrow>
            map algorithm (digestStages sts) = [Sha256])"
  using digestStages_configurePipes [OF assms]
  by (auto simp: newDigestTransform_def split: option.splits)

theorem configurePipes_one_digest_witness:
  "configurePipes toyCrypto bothOptions fileResponse ''out'' =
     Inr [Digest (newDigestTransform toyCrypto ''xxx'' Sha512 Base64), FileOut ''out''] \<and>
   sha512 bothOptions = Some ''xxx'' \<and> sha2 bothOptions = Some ''xx'' \<and>
   map algorithm (digestStages
     [Digest (newDigestTransform toyCrypto ''xxx'' Sha512 Base64), FileOut ''out'']) = [Sha512] \<and>
   configurePipes toyCrypto sha2Options fileResponse ''out'' =
     Inr [Progress ''2'', Digest (newDigestTransform toyCrypto ''xx'' Sha256 Hex), FileOut ''out''] \<and>
   sha512 sha2Options = None \<and> sha2 sha2Options = Some ''xx'' \<and>
   map algorithm (digestStages
     [Progress ''2'', Digest (newDigestTransform toyCrypto ''xx'' Sha256 Hex), FileOut ''out''])
     = [Sha256]"
proof -
  have c1: "configurePipes toyCrypto bothOptions fileResponse ''out'' =
      Inr [Digest (newDigestTransform toyCrypto ''xxx'' Sha512 Base64), FileOut ''out'']"
    by (simp add: pipes_defs toyCrypto_def bothOptions_def fileResponse_def)
  have c2: "configurePipes toyCrypto sha2Options fileResponse ''out'' =
      Inr [Progress ''2'', Digest (newDigestTransform toyCrypto ''xx'' Sha256 Hex),
           FileOut ''out'']"
    by (simp add: pipes_defs toyCrypto_def sha2Options_def fileResponse_def)
  have o: "sha512 bothOptions = Some ''xxx''" "sha2 bothOptions = Some ''xx''"
    "sha512 sha2Options = None" "sha2 sha2Options = Some ''xx''"
    by (simp_all add: bothOptions_def sha2Options_def)
  show ?thesis
    using c1 c2 o configurePipes_one_digest [OF c1] configurePipes_one_digest [OF c2]
    by (simp add: newDigestTransform_def sha512Encoding_def)
qed

text \<open>
  What \<^verbatim>\<open>checkSha2\<close> does in \<^verbatim>\<open>configurePipes\<close> when the header is found under
  the name the source asks for: a value that differs from the expected one is reported
  before the write stream is created; without the header, or with an equal value, the
  stages are piped.
\<close>

lemma checkSha2_on_exact_name:
  assumes "sha2 options = Some e"
  shows "(\<forall>h. safeGetHeader response ''X-Checksum-Sha2'' = Some h \<and> h \<noteq> e \<longrightarrow>
            configurePipes C options response destination = Inl (ChecksumHeaderMismatch e h)) \<and>
         (safeGetHeader response ''X-Checksum-Sha2'' = None \<or>
          safeGetHeader response ''X-Checksum-Sha2'' = Some e \<longrightarrow>
            (\<exists>sts. configurePipes C options response destination = Inr sts))"
  using assms by (auto simp: configurePipes_def checkSha2_def Let_def split: option.splits)

text \<open>
  The header names of a response are in lower case: the transport stores them so, and
  the source itself asks for \<open>location\<close>, \<open>content-type\<close> and
  \<open>content-length\<close>. Under the name \<open>X-Checksum-Sha2\<close> nothing is ever found
  in such a response, and \<^verbatim>\<open>configurePipes\<close> pipes it whatever it advertises.
\<close>

lemma toLowerCase_X_Checksum_Sha2: "toLowerCase ''X-Checksum-Sha2'' \<noteq> ''X-Checksum-Sha2''"
  by (simp add: toLowerCase_def toLowerChar_def)

lemma checkSha2_never_fires_on_lower_case_names:
  assumes "\<And>name. responseHeaders response name \<noteq> None \<Longrightarrow> toLowerCase name = name"
  shows "safeGetHeader response ''X-Checksum-Sha2'' = None \<and>
         (\<exists>sts. configurePipes C options response destination = Inr sts)"
proof -
  have "responseHeaders response ''X-Checksum-Sha2'' = None"
    using assms [of "''X-Checksum-Sha2''"] toLowerCase_X_Checksum_Sha2 by blast
  then have n: "safeGetHeader response ''X-Checksum-Sha2'' = None"
    by (simp add: safeGetHeader_def)
  then show ?thesis
    by (simp add: configurePipes_def checkSha2_def Let_def)
qed

text \<open>
  C7 does not hold of the code. A download expects the SHA-256 value \<open>xx\<close>. A
  response that advertises \<open>x-checksum-sha2: yy\<close> is piped, its bytes are written and
  the download completes; a response without the header is piped as well. Neither fails
  before a byte is written.
\<close>

theorem advertised_checksum_is_not_checked:
  "sha2 sha2Options = Some ''xx'' \<and>
   responseHeaders advertisedResponse ''x-checksum-sha2'' = Some (Single ''yy'') \<and>
   configurePipes toyCrypto sha2Options advertisedResponse ''out'' =
     Inr [Progress ''2'', Digest (newDigestTransform toyCrypto ''xx'' Sha256 Hex), FileOut ''out''] \<and>
   safeGetHeader fileResponse ''X-Checksum-Sha2'' = None \<and>
   configurePipes toyCrypto sha2Options fileResponse ''out'' =
     Inr [Progress ''2'', Digest (newDigestTransform toyCrypto ''xx'' Sha256 Hex), FileOut ''out''] \<and>
   trace (run toyCrypto [Chunk [1, 2], ResponseEnd None]
     (startPipeline
        [Progress ''2'', Digest (newDigestTransform toyCrypto ''xx'' Sha256 Hex), FileOut ''out'']
        False))
     = [Write [1, 2], Close, Callback None]"
  by (simp add: pipes_defs toyCrypto_def sha2Options_def fileResponse_def advertisedResponse_def
      eval_nat_numeral)

subsection \<open>The digest transform\<close>

lemma transformAll_eq:
  "transformAll C d cs = (d\<lparr>digester := foldl (hashUpdate C) (digester d) cs\<rparr>, cs)"
  by (induction cs arbitrary: d) (auto simp: digestTransform_def)

lemma foldl_hashUpdate_concat:
  assumes "\<And>h a b. hashUpdate C (hashUpdate C h a) b = hashUpdate C h (a @ b)"
    and "\<And>h. hashUpdate C h [] = h"
  shows "foldl (hashUpdate C) h cs = hashUpdate C h (concat cs)"
proof (induction cs arbitrary: h)
  case Nil
  show ?case by (simp add: assms(2))
next
  case (Cons c cs)
  then show ?case by (simp add: assms(1))
qed

text \<open>
  C8. Let the hash be a streaming hash: updating with two chunks in turn is updating with
  their concatenation, and updating with nothing changes nothing. Then a digest transform
  hands every chunk on as it came, two chunkings of the same bytes flush to the same state
  and the same result, and a transform whose expected value is the digest of the whole
  byte sequence flushes without error under either chunking.
\<close>

theorem digest_chunking_invariant:
  assumes "\<And>h a b. hashUpdate C (hashUpdate C h a) b = hashUpdate C h (a @ b)"
    and "\<And>h. hashUpdate C h [] = h"
    and "concat cs1 = concat cs2"
  shows "snd (transformAll C d cs1) = cs1 \<and> snd (transformAll C d cs2) = cs2 \<and>
         digestFlush C (fst (transformAll C d cs1)) = digestFlush C (fst (transformAll C d cs2)) \<and>
         (expected d = hashDigest C (hashUpdate C (digester d) (concat cs1)) (encoding d) \<longrightarrow>
            snd (digestFlush C (fst (transformAll C d cs1))) = None \<and>
            snd (digestFlush C (fst (transformAll C d cs2))) = None)"
proof -
  have "foldl (hashUpdate C) (digester d) cs1 = hashUpdate C (digester d) (concat cs1)"
    "foldl (hashUpdate C) (digester d) cs2 = hashUpdate C (digester d) (concat cs1)"
    using assms by (simp_all add: foldl_hashUpdate_concat)
  then show ?thesis
    by (simp add: transformAll_eq digestFlush_def validate_def Let_def)
qed

theorem digest_chunking_invariant_witness:
  "(\<forall>h a b. hashUpdate toyCrypto (hashUpdate toyCrypto h a) b = hashUpdate toyCrypto h (a @ b)) \<and>
   (\<forall>h. hashUpdate toyCrypto h [] = h) \<and>
   concat [[1, 2], [3]] = concat [[1], [], [2, 3 :: 8 word]] \<and>
   expected (newDigestTransform toyCrypto ''xxx'' Sha512 Base64) =
     hashDigest toyCrypto
       (hashUpdate toyCrypto (digester (newDigestTransform toyCrypto ''xxx'' Sha512 Base64))
          (concat [[1, 2], [3]]))
       (encoding (newDigestTransform toyCrypto ''xxx'' Sha512 Base64)) \<and>
   snd (transformAll toyCrypto (newDigestTransform toyCrypto ''xxx'' Sha512 Base64)
          [[1], [], [2, 3]]) = [[1], [], [2, 3]] \<and>
   snd (digestFlush toyCrypto (fst (transformAll toyCrypto
          (newDigestTransform toyCrypto ''xxx'' Sha512 Base64) [[1, 2], [3]]))) = None \<and>
   snd (digestFlush toyCrypto (fst (transformAll toyCrypto
          (newDigestTransform toyCrypto ''xxx'' Sha512 Base64) [[1], [], [2, 3]]))) = None"
proof -
  have l1: "hashUpdate toyCrypto (hashUpdate toyCrypto h a) b = hashUpdate toyCrypto h (a @ b)"
    for h a b
    by (simp add: toyCrypto_def)
  have l2: "hashUpdate toyCrypto h [] = h" for h
    by (simp add: toyCrypto_def)
  have c: "concat [[1, 2], [3]] = concat [[1], [], [2, 3 :: 8 word]]"
    by simp
  have e: "expected (newDigestTransform toyCrypto ''xxx'' Sha512 Base64) =
     hashDigest toyCrypto
       (hashUpdate toyCrypto (digester (newDigestTransform toyCrypto ''xxx'' Sha512 Base64))
          (concat [[1, 2], [3]]))
       (encoding (newDigestTransform toyCrypto ''xxx'' Sha512 Base64))"
    by (simp add: newDigestTransform_def toyCrypto_def eval_nat_numeral)
  show ?thesis
    using l1 l2 c e
      digest_chunking_invariant [of toyCrypto "[[1, 2], [3]]" "[[1], [], [2, 3]]"
        "newDigestTransform toyCrypto ''xxx'' Sha512 Base64", OF l1 l2 c]
    by blast
qed

subsection \<open>Running the pipeline\<close>

lemma pushChunk_digest_sink:
  assumes "pre = [] \<or> (\<exists>len. pre = [Progress len])"
  shows "pushChunk C (pre @ [Digest d, FileOut destination]) chunk =
           (pre @ [Digest (d\<lparr>digester := hashUpdate C (digester d) chunk\<rparr>), FileOut destination],
            [Write chunk])"
  using assms by (auto simp: digestTransform_def progressTransform_def)

lemma run_append: "run C (xs @ ys) s = run C ys (run C xs s)"
  by (induction xs arbitrary: s) auto

lemma run_chunks_digest_sink:
  assumes "pre = [] \<or> (\<exists>len. pre = [Progress len])"
  shows "run C (map Chunk chunks)
           \<lparr>streams = pre @ [Digest d, FileOut destination], cancelled = c,
            connected = Suc (Suc (length pre)), responseEnded = False, trace = t\<rparr> =
         \<lparr>streams = pre @ [Digest (d\<lparr>digester := foldl (hashUpdate C) (digester d) chunks\<rparr>),
                           FileOut destination],
          cancelled = c, connected = Suc (Suc (length pre)), responseEnded = False,
          trace = t @ map Write chunks\<rparr>"
proof (induction chunks arbitrary: d t)
  case Nil
  show ?case by simp
next
  case (Cons chunk chunks)
  show ?case
    by (simp add: pushChunk_digest_sink [OF assms] Cons.IH)
qed

lemma endStages_digest_mismatch:
  assumes "pre = [] \<or> (\<exists>len. pre = [Progress len])"
    and "isValidateOnEnd d"
    and "hashDigest C (digester d) (encoding d) \<noteq> expected d"
  shows "endStages C c closeResult (pre @ [Digest d, FileOut destination]) =
           (pre @ [Digest (d\<lparr>actual := Some (hashDigest C (digester d) (encoding d))\<rparr>),
                   FileOut destination],
            onStageError c (ChecksumMismatch (algorithm d) (expected d)
               (hashDigest C (digester d) (encoding d))))"
  using assms by (auto simp: digestFlush_def validate_def Let_def)

text \<open>Once the response has ended, \<^verbatim>\<open>close\<close> is not called any more.\<close>

lemma step_ended_close:
  "responseEnded s \<Longrightarrow>
     responseEnded (step C e s) \<and>
     count_list (trace (step C e s)) Close = count_list (trace s) Close"
  by (cases e) (auto simp: onStageError_def onRequestError_def)

lemma count_list_app: "count_list (xs @ ys) a = count_list xs a + count_list ys a"
  by (induction xs) auto

lemma run_ended_close:
  "responseEnded s \<Longrightarrow> count_list (trace (run C evs s)) Close = count_list (trace s) Close"
proof (induction evs arbitrary: s)
  case Nil
  show ?case by simp
next
  case (Cons e evs)
  from step_ended_close [OF Cons.prems, of C e]
  have a: "responseEnded (step C e s)"
    and b: "count_list (trace (step C e s)) Close = count_list (trace s) Close"
    by simp_all
  show ?case
    using Cons.IH [OF a] b by simp
qed

lemma count_list_Write_Close: "count_list (map Write chunks) Close = 0"
  by (induction chunks) auto

text \<open>
  A sink that fails is unpiped, and the digest stage before it goes on: it receives the
  later chunks and the end of the response, and reports its own mismatch as well.
\<close>

lemma failed_sink_leaves_digest_connected:
  "trace (run toyCrypto [Chunk [1], StageEmitsError 1 ''EPIPE'', Chunk [2], ResponseEnd None]
     (startPipeline [Digest (newDigestTransform toyCrypto ''xxx'' Sha512 Base64), FileOut ''out'']
        False))
     = [Write [1], Callback (Some (StageFailure ''EPIPE'')),
        Callback (Some (ChecksumMismatch Sha512 ''xxx'' ''xx''))]"
  by (simp add: pipes_defs toyCrypto_def eval_nat_numeral)

text \<open>
  C3, as the claim states it, fails: a download with an expected SHA-512 value
  \<open>xxx\<close> receives two chunks whose digest is \<open>xx\<close>. The chunks are written, the
  mismatch is handed to the callback, and \<^verbatim>\<open>close\<close> is not called: not before the
  failure is reported, and not at all.
\<close>

theorem checksum_mismatch_leaves_sink_open:
  "configurePipes toyCrypto bothOptions fileResponse ''out'' =
     Inr [Digest (newDigestTransform toyCrypto ''xxx'' Sha512 Base64), FileOut ''out''] \<and>
   trace (run toyCrypto [Chunk [1], Chunk [2], ResponseEnd None]
     (startPipeline [Digest (newDigestTransform toyCrypto ''xxx'' Sha512 Base64), FileOut ''out'']
        False))
     = [Write [1], Write [2], Callback (Some (ChecksumMismatch Sha512 ''xxx'' ''xx''))] \<and>
   count_list [Write [1], Write [2], Callback (Some (ChecksumMismatch Sha512 ''xxx'' ''xx''))] Close
     = 0"
  by (simp add: pipes_defs toyCrypto_def bothOptions_def fileResponse_def eval_nat_numeral)

text \<open>
  C3, amended. A download that is not cancelled and whose digest stage does not find its
  expected value in the digest of the chunks received: every chunk is written to the
  destination, then the callback is called once, with the checksum mismatch; the sink's
  \<^verbatim>\<open>close\<close> is not called then, nor by anything that happens later.
\<close>

theorem checksum_mismatch_is_reported_without_close:
  assumes "configurePipes C options response destination = Inr sts"
    and "d \<in> set (digestStages sts)"
    and "hashDigest C (foldl (hashUpdate C) (digester d) chunks) (encoding d) \<noteq> expected d"
  shows "trace (run C (map Chunk chunks @ [ResponseEnd closeResult]) (startPipeline sts False)) =
           map Write chunks @
           [Callback (Some (ChecksumMismatch (algorithm d) (expected d)
              (hashDigest C (foldl (hashUpdate C) (digester d) chunks) (encoding d))))] \<and>
         (\<forall>later. count_list (trace (run C (map Chunk chunks @ [ResponseEnd closeResult] @ later)
                     (startPipeline sts False))) Close = 0)"
proof -
  from configurePipes_streams [OF assms(1)] obtain pre where
    pre: "pre = [] \<or> (\<exists>len. pre = [Progress len])" and
    sts: "sts = pre @
             (case sha512 options of
                Some s \<Rightarrow> [Digest (newDigestTransform C s Sha512 (sha512Encoding s))]
              | None \<Rightarrow>
                 (case sha2 options of
                    Some t \<Rightarrow> [Digest (newDigestTransform C t Sha256 Hex)]
                  | None \<Rightarrow> [])) @ [FileOut destination]"
    by blast
  from pre have dp: "digestStages pre = []" by auto
  have shape: "sts = pre @ [Digest d, FileOut destination] \<and> isValidateOnEnd d"
    using assms(2) dp unfolding sts
    by (auto simp: digestStages_append newDigestTransform_def split: option.splits)
  let ?d = "d\<lparr>digester := foldl (hashUpdate C) (digester d) chunks\<rparr>"
  let ?actual = "hashDigest C (foldl (hashUpdate C) (digester d) chunks) (encoding d)"
  let ?e = "ChecksumMismatch (algorithm d) (expected d) ?actual"
  let ?after = "\<lparr>streams = pre @ [Digest (?d\<lparr>actual := Some ?actual\<rparr>), FileOut destination],
                  cancelled = False, connected = Suc (Suc (length pre)), responseEnded = True,
                  trace = map Write chunks @ [Callback (Some ?e)]\<rparr>"
  have chunks: "run C (map Chunk chunks) (startPipeline sts False) =
      \<lparr>streams = pre @ [Digest ?d, FileOut destination], cancelled = False,
       connected = Suc (Suc (length pre)), responseEnded = False, trace = map Write chunks\<rparr>"
    using run_chunks_digest_sink [OF pre, of C chunks d destination False "[]"] shape
    by (simp add: startPipeline_def)
  have e: "endStages C False closeResult (pre @ [Digest ?d, FileOut destination]) =
      (pre @ [Digest (?d\<lparr>actual := Some ?actual\<rparr>), FileOut destination],
       onStageError False ?e)"
    using endStages_digest_mismatch [OF pre, of ?d C False closeResult destination] shape assms(3)
    by simp
  have ended: "run C (map Chunk chunks @ [ResponseEnd closeResult]) (startPipeline sts False) = ?after"
    by (simp add: run_append chunks e onStageError_def)
  have "count_list (trace (run C later ?after)) Close = count_list (trace ?after) Close" for later
    by (rule run_ended_close) simp
  then have "count_list (trace (run C (map Chunk chunks @ [ResponseEnd closeResult] @ later)
               (startPipeline sts False))) Close = 0" for later
    using ended run_append [of C "map Chunk chunks @ [ResponseEnd closeResult]" later]
    by (simp add: count_list_app count_list_Write_Close)
  then show ?thesis
    using ended by simp
qed

theorem checksum_mismatch_is_reported_without_close_witness:
  "configurePipes toyCrypto sha2Options fileResponse ''out'' =
     Inr [Progress ''2'', Digest (newDigestTransform toyCrypto ''xx'' Sha256 Hex), FileOut ''out''] \<and>
   newDigestTransform toyCrypto ''xx'' Sha256 Hex \<in> set (digestStages
     [Progress ''2'', Digest (newDigestTransform toyCrypto ''xx'' Sha256 Hex), FileOut ''out'']) \<and>
   hashDigest toyCrypto
     (foldl (hashUpdate toyCrypto) (digester (newDigestTransform toyCrypto ''xx'' Sha256 Hex))
        [[1], [2], [3]])
     (encoding (newDigestTransform toyCrypto ''xx'' Sha256 Hex)) = ''xxx'' \<and>
   trace (run toyCrypto (map Chunk [[1], [2], [3]] @ [ResponseEnd None])
     (startPipeline
        [Progress ''2'', Digest (newDigestTransform toyCrypto ''xx'' Sha256 Hex), FileOut ''out'']
        False)) =
     [Write [1], Write [2], Write [3], Callback (Some (ChecksumMismatch Sha256 ''xx'' ''xxx''))]"
proof -
  let ?d = "newDigestTransform toyCrypto ''xx'' Sha256 Hex"
  let ?sts = "[Progress ''2'', Digest ?d, FileOut ''out'']"
  have c: "configurePipes toyCrypto sha2Options fileResponse ''out'' = Inr ?sts"
    by (simp add: pipes_defs toyCrypto_def sha2Options_def fileResponse_def)
  have m: "?d \<in> set (digestStages ?sts)"
    by simp
  have a: "hashDigest toyCrypto (foldl (hashUpdate toyCrypto) (digester ?d) [[1], [2], [3]])
             (encoding ?d) = ''xxx''"
    by (simp add: newDigestTransform_def toyCrypto_def eval_nat_numeral)
  have n: "hashDigest toyCrypto (foldl (hashUpdate toyCrypto) (digester ?d) [[1], [2], [3]])
             (encoding ?d) \<noteq> expected ?d"
    unfolding a by (simp add: newDigestTransform_def)
  have x: "algorithm ?d = Sha256" "expected ?d = ''xx''"
    by (simp_all add: newDigestTransform_def)
  have "trace (run toyCrypto (map Chunk [[1], [2], [3]] @ [ResponseEnd None])
          (startPipeline ?sts False)) =
        map Write [[1], [2], [3]] @
        [Callback (Some (ChecksumMismatch (algorithm ?d) (expected ?d)
           (hashDigest toyCrypto (foldl (hashUpdate toyCrypto) (digester ?d) [[1], [2], [3]])
              (encoding ?d))))]"
    using checksum_mismatch_is_reported_without_close [OF c m n, of None] by (rule conjunct1)
  then have t: "trace (run toyCrypto (map Chunk [[1], [2], [3]] @ [ResponseEnd None])
          (startPipeline ?sts False)) =
        [Write [1], Write [2], Write [3], Callback (Some (ChecksumMismatch Sha256 ''xx'' ''xxx''))]"
    by (simp only: a x list.map append_Cons append_Nil)
  show ?thesis
    by (intro conjI c m a t)
qed

subsection \<open>Cancellation\<close>

lemma pushChunk_no_stage_failure: "filter isStageFailure (snd (pushChunk C sts chunk)) = []"
  by (induction C sts chunk rule: pushChunk.induct) (auto split: prod.splits)

lemma endStages_cancelled_no_stage_failure:
  "filter isStageFailure (snd (endStages C True closeResult sts)) = []"
proof (induction C "True" closeResult sts rule: endStages.induct)
  case (4 C closeResult destination stages)
  show ?case by (cases closeResult) (simp_all add: onFinish_def)
qed (auto simp: onStageError_def split: prod.splits option.splits)

lemma step_cancelled:
  assumes "cancelled s"
  shows "cancelled (step C e s) \<and>
         filter isStageFailure (trace (step C e s)) = filter isStageFailure (trace s)"
proof (cases e)
  case (Chunk chunk)
  then show ?thesis
    using assms pushChunk_no_stage_failure [of C "take (connected s) (streams s)" chunk]
    by (auto split: prod.splits)
next
  case (ResponseEnd closeResult)
  then show ?thesis
    using assms endStages_cancelled_no_stage_failure
      [of C closeResult "take (connected s) (streams s)"]
    by (auto split: prod.splits)
next
  case Cancel
  then show ?thesis using assms by simp
next
  case (StageEmitsError i message)
  then show ?thesis using assms by (simp add: onStageError_def)
next
  case (RequestError message)
  then show ?thesis using assms by (simp add: onRequestError_def)
qed

lemma run_cancelled:
  "cancelled s \<Longrightarrow>
     filter isStageFailure (trace (run C evs s)) = filter isStageFailure (trace s)"
proof (induction evs arbitrary: s)
  case Nil
  show ?case by simp
next
  case (Cons e evs)
  from step_cancelled [OF Cons.prems, of C e]
  have a: "cancelled (step C e s)"
    and b: "filter isStageFailure (trace (step C e s)) = filter isStageFailure (trace s)"
    by simp_all
  show ?case
    using Cons.IH [OF a] b by simp
qed

lemma step_trace_grows: "\<exists>acts. trace (step C e s) = trace s @ acts"
  by (cases e) (auto split: prod.splits)

lemma run_trace_grows: "\<exists>acts. trace (run C evs s) = trace s @ acts"
proof (induction evs arbitrary: s)
  case Nil
  show ?case by simp
next
  case (Cons e evs)
  obtain a where a: "trace (step C e s) = trace s @ a"
    using step_trace_grows by blast
  obtain b where b: "trace (run C evs (step C e s)) = trace (step C e s) @ b"
    using Cons.IH by blast
  show ?case
    using a b by simp
qed

lemma completionSignal_append:
  "completionSignal (t @ u) =
     (case completionSignal t of None \<Rightarrow> completionSignal u | Some x \<Rightarrow> Some x)"
  by (induction t rule: completionSignal.induct) auto

text \<open>
  C4. From the moment the token is cancelled, whatever happens to the download afterwards
  (chunks in flight, the end of the response, errors of any stage, errors of the request)
  adds no call of the callback with a stage's error; and a completion signal that was
  still pending at that moment is settled as cancelled, and so never as a failure.
\<close>

theorem cancellation_wins:
  "filter isStageFailure (trace (run C (Cancel # evs) s)) = filter isStageFailure (trace s) \<and>
   (completionSignal (trace s) = None \<longrightarrow>
      completionSignal (trace (run C (Cancel # evs) s)) = Some Cancelled)"
proof -
  let ?s = "step C Cancel s"
  have c: "cancelled ?s" by simp
  have t: "trace ?s = trace s @ [Abort]" by simp
  have 1: "filter isStageFailure (trace (run C evs ?s)) = filter isStageFailure (trace s)"
    using run_cancelled [OF c, of C evs] t by simp
  obtain acts where acts: "trace (run C evs ?s) = (trace s @ [Abort]) @ acts"
    using run_trace_grows [of C evs ?s] t by auto
  have 2: "completionSignal (trace s) = None \<Longrightarrow>
             completionSignal (trace (run C evs ?s)) = Some Cancelled"
    unfolding acts by (simp add: completionSignal_append)
  show ?thesis
    using 1 2 by simp
qed

theorem cancellation_wins_witness:
  "completionSignal (trace (startPipeline
      [Digest (newDigestTransform toyCrypto ''xx'' Sha256 Hex), FileOut ''out''] False)) = None \<and>
   trace (run toyCrypto
       [Cancel, Chunk [1], RequestError ''socket hang up'', StageEmitsError 1 ''EPIPE'',
        ResponseEnd None]
     (startPipeline [Digest (newDigestTransform toyCrypto ''xx'' Sha256 Hex), FileOut ''out''] False))
     = [Abort, Write [1], Callback (Some (RequestFailure ''socket hang up''))] \<and>
   completionSignal (trace (run toyCrypto
       [Cancel, Chunk [1], RequestError ''socket hang up'', StageEmitsError 1 ''EPIPE'',
        ResponseEnd None]
     (startPipeline [Digest (newDigestTransform toyCrypto ''xx'' Sha256 Hex), FileOut ''out''] False)))
     = Some Cancelled \<and>
   trace (run toyCrypto [Cancel, Chunk [1], ResponseEnd None]
     (startPipeline [Digest (newDigestTransform toyCrypto ''xx'' Sha256 Hex), FileOut ''out''] False))
     = [Abort, Write [1]] \<and>
   trace (run toyCrypto [Chunk [1], ResponseEnd None]
     (startPipeline [Digest (newDigestTransform toyCrypto ''xx'' Sha256 Hex), FileOut ''out''] False))
     = [Write [1], Callback (Some (ChecksumMismatch Sha256 ''xx'' ''x''))]"
  using cancellation_wins [of toyCrypto
      "[Chunk [1], RequestError ''socket hang up'', StageEmitsError 1 ''EPIPE'', ResponseEnd None]"
      "startPipeline [Digest (newDigestTransform toyCrypto ''xx'' Sha256 Hex), FileOut ''out''] False"]
  by (simp add: pipes_defs toyCrypto_def onRequestError_def)

subsection \<open>Sensitive keys\<close>

lemma stringifyProperty_object:
  "\<not> isStripped skippedNames name \<Longrightarrow>
   stringifyProperty skippedNames name (JObject members) =
     JObject (map (\<lambda>(k, w). (k, stringifyProperty skippedNames k w)) members)"
  by (subst stringifyProperty.simps) (simp add: replacer_def)

lemma stringifyProperty_array:
  "\<not> isStripped skippedNames name \<Longrightarrow>
   stringifyProperty skippedNames name (JArray elements) =
     JArray (map (\<lambda>(i, w). stringifyProperty skippedNames (indexName i) w)
               (zip [0 ..< length elements] elements))"
  by (subst stringifyProperty.simps) (simp add: replacer_def)

lemma stringifyProperty_stripped:
  "isStripped skippedNames name \<Longrightarrow>
   stringifyProperty skippedNames name v = JString placeholder"
  by (subst stringifyProperty.simps) (simp add: replacer_def)

lemma stringifyProperty_leaf:
  "\<not> isStripped skippedNames name \<Longrightarrow> isLeaf v \<Longrightarrow>
   stringifyProperty skippedNames name v = v"
  by (subst stringifyProperty.simps) (cases v; simp add: replacer_def)

lemma toLowerCase_append: "toLowerCase (a @ b) = toLowerCase a @ toLowerCase b"
  by (simp add: toLowerCase_def)

lemma includesStr_toLowerCase:
  assumes "includesStr s p"
  shows "includesStr (toLowerCase s) (toLowerCase p)"
proof -
  obtain a b where "s = a @ p @ b"
    using includesStr_decompose [OF assms] by blast
  then have "toLowerCase s = toLowerCase a @ toLowerCase p @ toLowerCase b"
    by (simp add: toLowerCase_append)
  then show ?thesis
    by (simp add: includesStr_append)
qed

lemma toLowerCase_words:
  "toLowerCase ''authorization'' = ''authorization''"
  "toLowerCase ''Password'' = ''password''"
  "toLowerCase ''PASSWORD'' = ''password''"
  "toLowerCase ''Token'' = ''token''"
  "toLowerCase ''password'' = ''password''"
  "toLowerCase ''token'' = ''token''"
  by (simp_all add: toLowerCase_def toLowerChar_def)

text \<open>Every name the replacer strips by itself is sensitive in the sense of the spec.\<close>

lemma isStripped_specSensitive:
  assumes "isStripped None name"
  shows "specSensitive name"
proof -
  from assms consider
      "includesStr name ''authorization''" | "includesStr name ''Password''"
    | "includesStr name ''PASSWORD''" | "includesStr name ''Token''"
    | "includesStr name ''password''" | "includesStr name ''token''"
    by (auto simp: isStripped_def dest: endsWith_includesStr)
  then show ?thesis
  proof cases
    case 1
    from includesStr_toLowerCase [OF this] show ?thesis
      by (simp add: toLowerCase_words specSensitive_def)
  next
    case 2
    from includesStr_toLowerCase [OF this] show ?thesis
      by (simp add: toLowerCase_words specSensitive_def)
  next
    case 3
    from includesStr_toLowerCase [OF this] show ?thesis
      by (simp add: toLowerCase_words specSensitive_def)
  next
    case 4
    from includesStr_toLowerCase [OF this] show ?thesis
      by (simp add: toLowerCase_words specSensitive_def)
  next
    case 5
    from includesStr_toLowerCase [OF this] show ?thesis
      by (simp add: toLowerCase_words specSensitive_def)
  next
    case 6
    from includesStr_toLowerCase [OF this] show ?thesis
      by (simp add: toLowerCase_words specSensitive_def)
  qed
qed

lemmas json_defs =
  safeStringifyJson_def isStripped_def endsWith_def startsWith_def placeholder_def

text \<open>
  C9, as the claim states it, fails: the keys \<open>TOKEN\<close> and \<open>Authorization\<close>
  contain a sensitive word when case is ignored, and both keep their values.
\<close>

theorem uppercase_keys_are_not_stripped:
  "specSensitive ''TOKEN'' \<and> specSensitive ''Authorization'' \<and>
   safeStringifyJson (JObject [(''TOKEN'', JString ''s3cret''), (''Authorization'', JString ''Basic QQ=='')])
     None
     = JObject [(''TOKEN'', JString ''s3cret''), (''Authorization'', JString ''Basic QQ=='')]"
  by (simp add: specSensitive_def toLowerCase_def toLowerChar_def json_defs
      stringifyProperty_object stringifyProperty_leaf)

text \<open>
  C9, amended. What is printed is the data as the replacer leaves it, visited from the
  root. In an object that is itself kept, every key that \<open>isStripped\<close> accepts (a name
  that ends in \<open>authorization\<close>, \<open>Password\<close>, \<open>PASSWORD\<close> or \<open>Token\<close>, or
  contains \<open>password\<close> or \<open>token\<close>, in exactly this spelling, or is one of the
  skipped names) has the placeholder for its value, and every other key has its own value
  visited in the same way; the elements of a kept array are visited under their indices;
  a kept value that is neither object nor array is unchanged.
  Every name stripped without skipped names is one the case-insensitive rule of the spec
  calls sensitive.
\<close>

theorem safeStringifyJson_strips_listed_keys:
  "safeStringifyJson v skippedNames = stringifyProperty skippedNames [] v \<and>
   (\<not> isStripped skippedNames name \<longrightarrow>
      stringifyProperty skippedNames name (JObject members) =
        JObject (map (\<lambda>(k, w).
          (k, if isStripped skippedNames k then JString placeholder
              else stringifyProperty skippedNames k w)) members)) \<and>
   (\<not> isStripped skippedNames name \<longrightarrow>
      stringifyProperty skippedNames name (JArray elements) =
        JArray (map (\<lambda>(i, w). stringifyProperty skippedNames (indexName i) w)
                  (zip [0 ..< length elements] elements))) \<and>
   (\<not> isStripped skippedNames name \<and> isLeaf v \<longrightarrow> stringifyProperty skippedNames name v = v) \<and>
   (isStripped None name \<longrightarrow> specSensitive name)"
proof -
  have "(\<lambda>(k, w). (k, stringifyProperty skippedNames k w)) =
        (\<lambda>(k, w). (k, if isStripped skippedNames k then JString placeholder
                       else stringifyProperty skippedNames k w))"
    by (auto simp: fun_eq_iff stringifyProperty_stripped)
  then show ?thesis
    by (simp add: safeStringifyJson_def stringifyProperty_object stringifyProperty_array
        stringifyProperty_leaf isStripped_specSensitive)
qed

theorem safeStringifyJson_strips_listed_keys_witness:
  "\<not> isStripped None [] \<and> isStripped None ''authToken'' \<and> \<not> isStripped None ''user'' \<and>
   specSensitive ''authToken'' \<and>
   safeStringifyJson (JObject [(''authToken'', JString ''s3cret''), (''user'', JString ''me'')]) None
     = JObject [(''authToken'', JString ''<stripped sensitive data>''), (''user'', JString ''me'')]"
proof -
  have a: "\<not> isStripped None []" "isStripped None ''authToken''" "\<not> isStripped None ''user''"
    by (simp_all add: isStripped_def endsWith_def startsWith_def)
  have l: "isLeaf (JString ''me'')"
    by simp
  show ?thesis
    using a l
      safeStringifyJson_strips_listed_keys [of
        "JObject [(''authToken'', JString ''s3cret''), (''user'', JString ''me'')]" None "[]"
        "[(''authToken'', JString ''s3cret''), (''user'', JString ''me'')]"]
      safeStringifyJson_strips_listed_keys [of "JString ''me''" None "''user''" "[]"]
      safeStringifyJson_strips_listed_keys [of "JNull" None "''authToken''" "[]"]
    by (simp add: placeholder_def)
qed

end
